theory Spec2Isabelle
  imports Main "HOL-Library.AList"
begin

section \<open>JavaScript values used by \<open>gen_pdf_wk.js\<close>\<close>

text \<open>
  The program is a Node script. Strings are \<open>string\<close>; an absent (\<open>undefined\<close>) value is
  \<open>None\<close>; a thrown exception is the \<open>Inl\<close> branch of a sum. \<open>Error\<close> carries the message
  of \<open>new Error(...)\<close>, \<open>TypeError\<close> is what the runtime or a library raises on an
  \<open>undefined\<close> operand, \<open>Failure\<close> is a rejection coming from the file system, the
  style compiler or another external collaborator.
\<close>

datatype error = Error string | TypeError | Failure string

text \<open>
  The numbers \<open>filterInt\<close> can return: doubles whose value is an integer (\<open>Finite\<close>),
  negative zero, and the two infinities.
\<close>

datatype jsnum = Finite int | NegZero | PosInfinity | NegInfinity

text \<open>
  One argument of the renderer's command line: a string, a number from \<open>filterInt\<close>, or a
  floating point value (the zoom factor and the numbers of the configuration), whose type
  \<open>'z\<close> stays abstract because the program only passes such values on.
\<close>

datatype 'z token = Str string | Num jsnum | Flt 'z

subsection \<open>Strings\<close>

definition is_digit :: "char \<Rightarrow> bool" where
  "is_digit c = (c \<in> set ''0123456789'')"

definition digit_char :: "nat \<Rightarrow> char" where
  "digit_char d = ''0123456789'' ! d"

definition digit_val :: "char \<Rightarrow> nat" where
  "digit_val c = length (takeWhile (\<lambda>x. x \<noteq> c) ''0123456789'')"

text \<open>
  \<open>String(i)\<close> for a non-negative integer \<open>i\<close>: its decimal digits (the runtime switches
  to exponent notation from \<open>10 ^ 21\<close> on, far beyond any loop counter here).
\<close>

fun String_of_nat :: "nat \<Rightarrow> string" where
  "String_of_nat n =
     (if n < 10 then [digit_char n]
      else String_of_nat (n div 10) @ [digit_char (n mod 10)])"

declare String_of_nat.simps [simp del]

definition digits_val :: "string \<Rightarrow> nat" where
  "digits_val s = foldl (\<lambda>a c. 10 * a + digit_val c) 0 s"

text \<open>
  \<open>s.toLowerCase()\<close>, on the ASCII letters. The result is only compared with \<open>.less\<close>
  and \<open>.xsl\<close>, and no character outside ASCII lower-cases to one of their letters.
\<close>

definition lower_char :: "char \<Rightarrow> char" where
  "lower_char c =
     (case map_of (zip ''ABCDEFGHIJKLMNOPQRSTUVWXYZ'' ''abcdefghijklmnopqrstuvwxyz'') c of
        None \<Rightarrow> c
      | Some l \<Rightarrow> l)"

definition toLowerCase :: "string \<Rightarrow> string" where
  "toLowerCase s = map lower_char s"

definition startsWith :: "string \<Rightarrow> string \<Rightarrow> bool" where
  "startsWith s p = (take (length p) s = p)"

definition endsWith :: "string \<Rightarrow> string \<Rightarrow> bool" where
  "endsWith s p = (length p \<le> length s \<and> drop (length s - length p) s = p)"

text \<open>
  \<open>s.replace(pattern, replacement)\<close> with a string pattern and a string replacement:
  only the first occurrence of the pattern is replaced, and in the replacement the
  sequences \<open>$$\<close>, \<open>$&\<close>, \<open>$`\<close> and \<open>$'\<close> stand for a dollar sign, the matched text, the
  text before the match and the text after it.
\<close>

fun split_first :: "string \<Rightarrow> string \<Rightarrow> (string \<times> string) option" where
  "split_first p [] = (if p = [] then Some ([], []) else None)"
| "split_first p (c # cs) =
     (if startsWith (c # cs) p then Some ([], drop (length p) (c # cs))
      else (case split_first p cs of
              None \<Rightarrow> None
            | Some (pre, post) \<Rightarrow> Some (c # pre, post)))"

fun substitution :: "string \<Rightarrow> string \<Rightarrow> string \<Rightarrow> string \<Rightarrow> string" where
  "substitution m b a [] = []"
| "substitution m b a [c] = [c]"
| "substitution m b a (c # d # r) =
     (if c = CHR ''$'' \<and> d = CHR ''$'' then CHR ''$'' # substitution m b a r
      else if c = CHR ''$'' \<and> d = CHR ''&'' then m @ substitution m b a r
      else if c = CHR ''$'' \<and> d = CHR ''`'' then b @ substitution m b a r
      else if c = CHR ''$'' \<and> d = CHR 0x27 then a @ substitution m b a r
      else c # substitution m b a (d # r))"

definition replace_str :: "string \<Rightarrow> string \<Rightarrow> string \<Rightarrow> string" where
  "replace_str s p r =
     (case split_first p s of
        None \<Rightarrow> s
      | Some (pre, post) \<Rightarrow> pre @ substitution p pre post r @ post)"

text \<open>\<open>dest.replace(/\.less$/, '.css')\<close>: the pattern matches at the end of the string only.\<close>

definition replace_less_suffix :: "string \<Rightarrow> string" where
  "replace_less_suffix dest =
     (if endsWith dest ''.less'' then take (length dest - 5) dest @ ''.css'' else dest)"

subsection \<open>The \<open>path\<close> and \<open>file-url\<close> modules\<close>

text \<open>
  The functions of Node's \<open>path\<close> module and of the \<open>file-url\<close> package that the program
  calls are parameters of the model.
\<close>

record pathlib =
  path_join :: "string \<Rightarrow> string \<Rightarrow> string"
  path_basename :: "string \<Rightarrow> string"
  path_extname :: "string \<Rightarrow> string"
  path_normalize :: "string \<Rightarrow> string"
  path_relative :: "string \<Rightarrow> string \<Rightarrow> string"
  fileUrl :: "string \<Rightarrow> string"

text \<open>
  A concrete instance for evaluating examples. It agrees with Node on POSIX on the paths
  used below: segments separated by single slashes, no \<open>.\<close> or \<open>..\<close> segment, no trailing
  slash; \<open>posix_relative\<close> expects a one-segment relative directory; \<open>posix_fileUrl\<close>
  expects an absolute path whose only character needing percent-encoding is the space.
\<close>

definition posix_basename :: "string \<Rightarrow> string" where
  "posix_basename p = rev (takeWhile (\<lambda>c. c \<noteq> CHR ''/'') (rev p))"

definition posix_extname :: "string \<Rightarrow> string" where
  "posix_extname p =
     (let b = posix_basename p; e = rev (takeWhile (\<lambda>c. c \<noteq> CHR ''.'') (rev b))
      in if CHR ''.'' \<notin> set b \<or> Suc (length e) = length b then [] else CHR ''.'' # e)"

definition posix_relative :: "string \<Rightarrow> string \<Rightarrow> string" where
  "posix_relative d p =
     (if startsWith p (d @ ''/'') then drop (Suc (length d)) p else ''../'' @ p)"

definition posix_fileUrl :: "string \<Rightarrow> string" where
  "posix_fileUrl p = ''file://'' @ concat (map (\<lambda>c. if c = CHR '' '' then ''%20'' else [c]) p)"

definition posix :: pathlib where
  "posix = \<lparr> path_join = (\<lambda>a b. a @ ''/'' @ b),
             path_basename = posix_basename,
             path_extname = posix_extname,
             path_normalize = (\<lambda>p. p),
             path_relative = posix_relative,
             fileUrl = posix_fileUrl \<rparr>"

section \<open>Command line options\<close>

text \<open>
  \<open>filterInt\<close> (lines 20-24): the regular expression
  \<open>/^(\-|\+)?([0-9]+|Infinity)$/\<close> is an optional sign followed by either one or more
  decimal digits or the word \<open>Infinity\<close>; a match returns \<open>Number(value)\<close>, anything else
  throws.
\<close>

fun strip_sign :: "string \<Rightarrow> string" where
  "strip_sign [] = []"
| "strip_sign (c # cs) = (if c = CHR ''-'' \<or> c = CHR ''+'' then cs else c # cs)"

definition filterInt_test :: "string \<Rightarrow> bool" where
  "filterInt_test v =
     (let body = strip_sign v
      in (body \<noteq> [] \<and> list_all is_digit body) \<or> body = ''Infinity'')"

text \<open>
  \<open>Number(value)\<close> on a string the regular expression has accepted. The result is a
  double: the integer the digits denote, rounded to the nearest double with ties going to
  the even significand (V8 rounds decimal literals correctly). Up to \<open>2 ^ 53\<close> every
  integer is a double; from there on a double with \<open>b\<close> significant bits is a multiple of
  \<open>2 ^ (b - 53)\<close>; what rounds to \<open>2 ^ 1024\<close> or more is infinite. \<open>to_double\<close> returns
  \<open>None\<close> for infinite.
\<close>

fun bit_length :: "nat \<Rightarrow> nat" where
  "bit_length n = (if n = 0 then 0 else Suc (bit_length (n div 2)))"

declare bit_length.simps [simp del]

definition to_double :: "nat \<Rightarrow> nat option" where
  "to_double n =
     (if n < 2 ^ 53 then Some n
      else let ulp = 2 ^ (bit_length n - 53);
               q = n div ulp;
               r = n mod ulp;
               m = (if ulp < 2 * r \<or> (2 * r = ulp \<and> odd q) then Suc q else q)
           in if 2 ^ 1024 \<le> m * ulp then None else Some (m * ulp))"

definition Number :: "string \<Rightarrow> jsnum" where
  "Number v =
     (let negative = startsWith v ''-''; body = strip_sign v
      in if body = ''Infinity'' then (if negative then NegInfinity else PosInfinity)
         else (case to_double (digits_val body) of
                 None \<Rightarrow> if negative then NegInfinity else PosInfinity
               | Some m \<Rightarrow>
                   if negative then (if m = 0 then NegZero else Finite (- int m))
                   else Finite (int m)))"

definition filterInt :: "string \<Rightarrow> error + jsnum" where
  "filterInt v =
     (if filterInt_test v then Inr (Number v)
      else Inl (Error (''Unable to parse '' @ [CHR 0x22] @ v @ [CHR 0x22] @ '' as an integer.'')))"

record 'z cmdOptions =
  ebookDirectory :: string
  outputFile :: string
  zoom :: 'z
  javascriptDelay :: jsnum
  build :: bool

text \<open>
  \<open>cmdOptions.parse(process.argv)\<close> (lines 209-223), as far as the render delay goes:
  the value of \<open>-j\<close>, when given, goes through \<open>filterInt\<close>; without the option the
  default of the other options record stands. The other options arrive parsed.
\<close>

definition parseOptions :: "'z cmdOptions \<Rightarrow> string option \<Rightarrow> error + 'z cmdOptions" where
  "parseOptions defaults j =
     (case j of
        None \<Rightarrow> Inr defaults
      | Some v \<Rightarrow> (case filterInt v of
                    Inl e \<Rightarrow> Inl e
                  | Inr n \<Rightarrow> Inr (defaults\<lparr>javascriptDelay := n\<rparr>)))"

text \<open>
  \<open>getQTCompatibleFileUrl\<close> (lines 28-31): a leading \<open>file:///X:/\<close> with an upper case
  drive letter is replaced by its lower case form.
\<close>

definition getQTCompatibleFileUrl :: "pathlib \<Rightarrow> string \<Rightarrow> string" where
  "getQTCompatibleFileUrl P path =
     (let u = fileUrl P path
      in if startsWith u ''file:///'' \<and> 11 \<le> length u
            \<and> u ! 8 \<in> set ''ABCDEFGHIJKLMNOPQRSTUVWXYZ''
            \<and> u ! 9 = CHR '':'' \<and> u ! 10 = CHR ''/''
         then toLowerCase (take 11 u) @ drop 11 u
         else u)"

section \<open>Configuration\<close>

text \<open>
  Modelled from the spec: the configuration loader \<open>gen_pdf_wk_loadConfig.js\<close> is not
  among the sources, so the shape of what it returns follows the schema of section 6:
  \<open>root\<close>, \<open>title\<close> and a \<open>wkhtmltopdf\<close> section with \<open>margin.{top,bottom,left,right}\<close>,
  \<open>title\<close>, \<open>cover\<close>, \<open>tocXsl\<close>, \<open>header.{contentHtml,spacing}\<close>,
  \<open>footer.{contentHtml,spacing}\<close> and \<open>assets\<close>. The asset references and the titles may be
  absent (\<open>None\<close>); the \<open>margin\<close>, \<open>header\<close> and \<open>footer\<close> sections and the \<open>assets\<close> list
  are present.
\<close>

record 'z margin =
  margin_top :: "'z token"
  margin_bottom :: "'z token"
  margin_left :: "'z token"
  margin_right :: "'z token"

record 'z sectionConfig =
  contentHtml :: "string option"
  spacing :: "'z token"

record 'z config =
  root :: string
  margin :: "'z margin"
  title :: "string option"
  cover :: "string option"
  tocXsl :: "string option"
  header :: "'z sectionConfig"
  footer :: "'z sectionConfig"
  assets :: "string list"

record 'z rawConfig =
  raw_root :: string
  raw_title :: "string option"
  wkhtmltopdf :: "'z config"

text \<open>
  The tests \<open>if (config.title)\<close>, \<open>if (config.cover)\<close>, \<open>.filter(v => v)\<close>: an absent value
  and the empty string are falsy.
\<close>

definition truthy :: "string option \<Rightarrow> bool" where
  "truthy v = (case v of None \<Rightarrow> False | Some s \<Rightarrow> s \<noteq> [])"

text \<open>
  Lines 229-236 of the top-level chain: the frozen \<open>config\<close> built from the raw one.
  (\<open>config.summary\<close> is set there too and read nowhere in this file.)
\<close>

definition mkConfig :: "'z rawConfig \<Rightarrow> 'z config" where
  "mkConfig rawConfig =
     (let config = wkhtmltopdf rawConfig;
          config = config\<lparr>root := raw_root rawConfig\<rparr>
      in if \<not> truthy (title config) then config\<lparr>title := raw_title rawConfig\<rparr> else config)"

section \<open>Maps and sets of the runtime\<close>

text \<open>
  A \<open>Map\<close> keeps its entries in insertion order: an association list, where \<open>set\<close> on a
  present key replaces the value in place and on a new key appends (\<open>AList.update\<close>).
  A \<open>Set\<close> built from an array keeps the first occurrence of each element, in order.
\<close>

type_synonym jsmap = "(string \<times> string) list"

definition Map_has :: "jsmap \<Rightarrow> string \<Rightarrow> bool" where
  "Map_has m k = (k \<in> fst ` set m)"

definition Map_get :: "jsmap \<Rightarrow> string \<Rightarrow> string option" where
  "Map_get m k = map_of m k"

definition Map_set :: "jsmap \<Rightarrow> string \<Rightarrow> string \<Rightarrow> jsmap" where
  "Map_set m k v = AList.update k v m"

fun Set_add_all :: "'a list \<Rightarrow> 'a list \<Rightarrow> 'a list" where
  "Set_add_all s [] = s"
| "Set_add_all s (x # xs) = Set_add_all (if x \<in> set s then s else s @ [x]) xs"

definition new_Set :: "'a list \<Rightarrow> 'a list" where
  "new_Set xs = Set_add_all [] xs"

section \<open>The table of contents\<close>

text \<open>
  A list item of the parsed summary, seen through the three XPath queries of
  \<open>_processNodes\<close>: the values of \<open>./html:span/html:a/@href\<close>, the string
  \<open>normalize-space(./html:span/html:a/text())\<close>, and the items \<open>./html:ol/html:li\<close>.
\<close>

datatype li = Li (a_href: "string list") (a_text: string) (ol_li: "li list")

record doc =
  url :: string
  doc_title :: string
  level :: nat

text \<open>
  \<open>_processNodes\<close> (lines 48-57). \<open>select(...)[0].value\<close> on an item without a link
  address reads a property of \<open>undefined\<close> and throws. The list \<open>docList\<close> is the state
  \<open>this._docList\<close>, returned updated.
\<close>

fun processNodes :: "li list \<Rightarrow> nat \<Rightarrow> doc list \<Rightarrow> error + doc list" where
  "processNodes [] lvl docList = Inr docList"
| "processNodes (Li hrefs txt subNodes # nodes) lvl docList =
     (case hrefs of
        [] \<Rightarrow> Inl TypeError
      | h # _ \<Rightarrow>
          (case processNodes subNodes (lvl + 1)
                  (docList @ [\<lparr>url = h, doc_title = txt, level = lvl\<rparr>]) of
             Inl e \<Rightarrow> Inl e
           | Inr docList' \<Rightarrow> processNodes nodes lvl docList'))"

text \<open>
  The reading of the claim about flattening: the pre-order sequence of descriptors, the
  number of list items, the nesting depth, and well-formedness (every item has a link
  address).
\<close>

fun preorder :: "nat \<Rightarrow> li \<Rightarrow> doc list" where
  "preorder lvl (Li hrefs txt subNodes) =
     \<lparr>url = hd hrefs, doc_title = txt, level = lvl\<rparr> # concat (map (preorder (Suc lvl)) subNodes)"

fun count_items :: "li \<Rightarrow> nat" where
  "count_items (Li hrefs txt subNodes) = Suc (sum_list (map count_items subNodes))"

fun depth :: "li \<Rightarrow> nat" where
  "depth (Li hrefs txt subNodes) = Suc (fold max (map depth subNodes) 0)"

fun well_formed :: "li \<Rightarrow> bool" where
  "well_formed (Li hrefs txt subNodes) = (hrefs \<noteq> [] \<and> list_all well_formed subNodes)"

section \<open>The render invocation\<close>

definition getAssetSrcPath :: "pathlib \<Rightarrow> 'z config \<Rightarrow> string \<Rightarrow> string" where
  "getAssetSrcPath P config asset = path_join P (root config) asset"

definition getAssetDescPath :: "pathlib \<Rightarrow> 'z config \<Rightarrow> jsmap \<Rightarrow> string \<Rightarrow> string option" where
  "getAssetDescPath P config assetMap asset = Map_get assetMap (getAssetSrcPath P config asset)"

definition marginArgs :: "'z config \<Rightarrow> 'z token list" where
  "marginArgs config =
     [Str ''-T'', margin_top (margin config), Str ''-B'', margin_bottom (margin config),
      Str ''-L'', margin_left (margin config), Str ''-R'', margin_right (margin config)]"

definition titleArgs :: "'z config \<Rightarrow> 'z token list" where
  "titleArgs config =
     (case title config of
        None \<Rightarrow> []
      | Some t \<Rightarrow> if t \<noteq> [] then [Str ''--title'', Str t] else [])"

definition argsForAllPages :: "'z cmdOptions \<Rightarrow> 'z token list" where
  "argsForAllPages opts =
     [Str ''--zoom'', Flt (zoom opts), Str ''--debug-javascript'',
      Str ''--javascript-delay'', Num (javascriptDelay opts)]"

text \<open>
  \<open>path.relative\<close> and \<open>file-url\<close> throw a \<open>TypeError\<close> on \<open>undefined\<close>, which is what the
  asset map returns for a source it does not hold.
\<close>

definition coverArgs :: "pathlib \<Rightarrow> 'z cmdOptions \<Rightarrow> 'z config \<Rightarrow> jsmap \<Rightarrow> error + 'z token list" where
  "coverArgs P opts config assetMap =
     (case cover config of
        None \<Rightarrow> Inr []
      | Some c \<Rightarrow>
          if c = [] then Inr []
          else (case getAssetDescPath P config assetMap c of
                  None \<Rightarrow> Inl TypeError
                | Some d \<Rightarrow>
                    Inr ([Str ''cover'', Str (path_relative P (ebookDirectory opts) d),
                          Str ''--exclude-from-outline''] @ argsForAllPages opts)))"

definition tocArgs :: "pathlib \<Rightarrow> 'z cmdOptions \<Rightarrow> 'z config \<Rightarrow> jsmap \<Rightarrow> error + 'z token list" where
  "tocArgs P opts config assetMap =
     (case tocXsl config of
        None \<Rightarrow> Inr (Str ''toc'' # argsForAllPages opts)
      | Some x \<Rightarrow>
          if x = [] then Inr (Str ''toc'' # argsForAllPages opts)
          else (case getAssetDescPath P config assetMap x of
                  None \<Rightarrow> Inl TypeError
                | Some d \<Rightarrow>
                    Inr (Str ''toc'' # argsForAllPages opts @
                         [Str ''--xsl-style-sheet'',
                          Str (path_relative P (ebookDirectory opts) d)])))"

text \<open>One round of the loop over \<open>['header', 'footer']\<close> (lines 86-94).\<close>

definition sectionArgs ::
  "pathlib \<Rightarrow> 'z config \<Rightarrow> jsmap \<Rightarrow> string \<Rightarrow> 'z sectionConfig \<Rightarrow> error + 'z token list" where
  "sectionArgs P config assetMap name sectionCfg =
     (case contentHtml sectionCfg of
        None \<Rightarrow> Inr []
      | Some h \<Rightarrow>
          if h = [] then Inr []
          else (case getAssetDescPath P config assetMap h of
                  None \<Rightarrow> Inl TypeError
                | Some d \<Rightarrow>
                    Inr [Str (''--'' @ name @ ''-html''), Str (getQTCompatibleFileUrl P d),
                         Str (''--'' @ name @ ''-spacing''), spacing sectionCfg]))"

definition pageArgs :: "pathlib \<Rightarrow> 'z token list \<Rightarrow> doc \<Rightarrow> 'z token list" where
  "pageArgs P argsForNormalPages d = Str (path_normalize P (url d)) # argsForNormalPages"

text \<open>
  \<open>_doCommand\<close> (lines 59-110): the argument list handed to \<open>spawnSync\<close>, or the
  exception thrown on the way. The value \<open>spawnSync\<close> returns is dropped by the source.
\<close>

definition doCommand ::
  "pathlib \<Rightarrow> 'z cmdOptions \<Rightarrow> 'z config \<Rightarrow> jsmap \<Rightarrow> doc list \<Rightarrow> error + 'z token list" where
  "doCommand P opts config assetMap docList =
     (case coverArgs P opts config assetMap of
        Inl e \<Rightarrow> Inl e
      | Inr coverBlock \<Rightarrow>
     (case tocArgs P opts config assetMap of
        Inl e \<Rightarrow> Inl e
      | Inr tocBlock \<Rightarrow>
     (case sectionArgs P config assetMap ''header'' (header config) of
        Inl e \<Rightarrow> Inl e
      | Inr headerArgs \<Rightarrow>
     (case sectionArgs P config assetMap ''footer'' (footer config) of
        Inl e \<Rightarrow> Inl e
      | Inr footerArgs \<Rightarrow>
          (let argsForNormalPages = argsForAllPages opts @ headerArgs @ footerArgs
           in Inr (marginArgs config @ titleArgs config @ coverBlock @ tocBlock
                   @ concat (map (pageArgs P argsForNormalPages) docList)
                   @ [Str (path_relative P (ebookDirectory opts) (outputFile opts))]))))))"

section \<open>Asset resolution\<close>

text \<open>
  The set \<open>assets\<close> of \<open>processAssets\<close> (lines 137-142): the configured references that are
  truthy, joined to the root, without repetition.
\<close>

definition assetSources :: "pathlib \<Rightarrow> 'z config \<Rightarrow> string list" where
  "assetSources P config =
     new_Set (map (path_join P (root config))
       (map the (filter truthy
          (map Some (assets config)
           @ [cover config, contentHtml (header config), contentHtml (footer config)]))))"

text \<open>
  The inner loop \<open>for (let i = 1; ; ++i)\<close> (lines 151-155) has no bound of its own. It ends
  because the reverse map is finite and the decimal rendering of \<open>i\<close> is injective.
\<close>

lemma below_ten: "d < 10 \<Longrightarrow> d \<in> {0, 1, 2, 3, 4, 5, 6, 7, 8, 9::nat}"
  by auto

lemma digit_val_digit_char: "d < 10 \<Longrightarrow> digit_val (digit_char d) = d"
  by (drule below_ten) (auto simp: digit_val_def digit_char_def)

lemma is_digit_digit_char: "d < 10 \<Longrightarrow> is_digit (digit_char d)"
  by (drule below_ten) (auto simp: is_digit_def digit_char_def)

lemma digits_val_String_of_nat: "digits_val (String_of_nat n) = n"
proof (induction n rule: String_of_nat.induct)
  case (1 n)
  show ?case
  proof (cases "n < 10")
    case True
    then show ?thesis
      by (simp add: String_of_nat.simps [of n] digits_val_def digit_val_digit_char)
  next
    case False
    with 1 have "digits_val (String_of_nat (n div 10)) = n div 10" by simp
    with False show ?thesis
      by (simp add: String_of_nat.simps [of n] digits_val_def digit_val_digit_char)
  qed
qed

lemma String_of_nat_inj: "String_of_nat m = String_of_nat n \<Longrightarrow> m = n"
  by (metis digits_val_String_of_nat)

lemma suffixed_finite: "finite {j. Map_has rm (base @ ''_'' @ String_of_nat j)}"
proof -
  let ?f = "\<lambda>j. base @ ''_'' @ String_of_nat j"
  have "inj ?f" by (auto simp: inj_on_def dest: String_of_nat_inj)
  moreover have "finite (fst ` set rm)" by simp
  ultimately have "finite (?f -` (fst ` set rm))" by (rule finite_vimageI[rotated])
  then show ?thesis by (simp add: Map_has_def vimage_def)
qed

function assetDest_loop :: "jsmap \<Rightarrow> string \<Rightarrow> nat \<Rightarrow> string" where
  "assetDest_loop assetReverseMap assetDestBase i =
     (let assetDest = assetDestBase @ ''_'' @ String_of_nat i
      in if \<not> Map_has assetReverseMap assetDest then assetDest
         else assetDest_loop assetReverseMap assetDestBase (Suc i))"
  by pat_completeness auto
termination
proof (relation "measure (\<lambda>(rm, base, i).
          card {j. i \<le> j \<and> Map_has rm (base @ ''_'' @ String_of_nat j)})")
  show "wf (measure (\<lambda>(rm, base, i).
          card {j. i \<le> j \<and> Map_has rm (base @ ''_'' @ String_of_nat j)}))"
    by simp
next
  fix rm base i x
  assume x: "x = base @ ''_'' @ String_of_nat i" and "\<not> \<not> Map_has rm x"
  then have mem: "Map_has rm (base @ ''_'' @ String_of_nat i)" by simp
  let ?A = "\<lambda>i. {j. i \<le> j \<and> Map_has rm (base @ ''_'' @ String_of_nat j)}"
  have fin: "finite (?A i)"
    by (rule finite_subset[OF _ suffixed_finite[of rm base]]) auto
  have "i \<in> ?A i" "i \<notin> ?A (Suc i)" "?A (Suc i) \<subseteq> ?A i" using mem by auto
  then have "?A (Suc i) \<subset> ?A i" by blast
  then have "card (?A (Suc i)) < card (?A i)" using fin by (rule psubset_card_mono[rotated])
  then show "((rm, base, Suc i), (rm, base, i)) \<in> measure (\<lambda>(rm, base, i).
          card {j. i \<le> j \<and> Map_has rm (base @ ''_'' @ String_of_nat j)})"
    by simp
qed

declare assetDest_loop.simps [simp del]

text \<open>The destination chosen for one source (lines 147-158).\<close>

definition chooseDest :: "pathlib \<Rightarrow> 'z cmdOptions \<Rightarrow> jsmap \<Rightarrow> string \<Rightarrow> string" where
  "chooseDest P opts assetReverseMap assetSrc =
     (let assetDestBase = path_join P (ebookDirectory opts) (path_basename P assetSrc)
      in if Map_has assetReverseMap assetDestBase
         then assetDest_loop assetReverseMap assetDestBase 1
         else assetDestBase)"

text \<open>The loop over the sources (lines 146-162), on the pair of maps it updates.\<close>

fun assignDests ::
  "pathlib \<Rightarrow> 'z cmdOptions \<Rightarrow> string list \<Rightarrow> jsmap \<times> jsmap \<Rightarrow> jsmap \<times> jsmap" where
  "assignDests P opts [] maps = maps"
| "assignDests P opts (assetSrc # rest) (assetMap, assetReverseMap) =
     (let assetDest = chooseDest P opts assetReverseMap assetSrc
      in assignDests P opts rest
           (Map_set assetMap assetSrc assetDest, Map_set assetReverseMap assetDest assetSrc))"

definition resolveAssets :: "pathlib \<Rightarrow> 'z cmdOptions \<Rightarrow> string list \<Rightarrow> jsmap" where
  "resolveAssets P opts srcs = fst (assignDests P opts srcs ([], []))"

subsection \<open>The transforms\<close>

text \<open>
  What \<open>spawnSync\<close> returns for a child process: its exit status, the signal that killed
  it (the renderer is killed when its timeout of 200 seconds expires), or the error of a
  process that could not be started.
\<close>

datatype spawn_result = Exited nat | Killed string | SpawnError string

text \<open>
  Everything outside the script, as its stages find it. For the transforms: reading a
  file, compiling LESS text (with the file name), writing a file and copying, each of
  which may fail. For the summary: the read stream of a file, which delivers the text or
  emits an error; the HTML tidy worker, which delivers XHTML or emits an error; and the
  items that the root query of \<open>process\<close>,
  \<open>//html:div[contains(@class,"toc")]/html:ol/html:li\<close>, selects from a parsed document.
  For the child processes: whether the working directory exists, and what \<open>spawnSync\<close>
  returns for GitBook and for the renderer.
\<close>

record world =
  readFile :: "string \<Rightarrow> error + string"
  less_render :: "string \<Rightarrow> string \<Rightarrow> error + string"
  writeFile :: "string \<Rightarrow> string \<Rightarrow> error option"
  copy :: "string \<Rightarrow> string \<Rightarrow> error option"
  isDirectory :: "string \<Rightarrow> bool"
  readStream :: "string \<Rightarrow> error + string"
  tidy :: "string \<Rightarrow> error + string"
  tocItems :: "string \<Rightarrow> li list"
  gitbook_result :: spawn_result
  wkhtmltopdf_result :: spawn_result

text \<open>What a transform that succeeded has done: written text to a path, or copied.\<close>

datatype fsop = Written string string | Copied string string

fun target :: "fsop \<Rightarrow> string" where
  "target (Written p d) = p"
| "target (Copied s d) = d"

text \<open>The \<open>.xsl\<close> text substitution (lines 178-181).\<close>

definition xslUrl :: "pathlib \<Rightarrow> 'z cmdOptions \<Rightarrow> string" where
  "xslUrl P opts = replace_str (getQTCompatibleFileUrl P (ebookDirectory opts)) ''%20'' '' ''"

definition xslProcess :: "pathlib \<Rightarrow> 'z cmdOptions \<Rightarrow> string \<Rightarrow> string" where
  "xslProcess P opts data = replace_str data ''%url_current_dir%'' (xslUrl P opts)"

text \<open>
  The path a transform writes to (lines 166-188): for a source whose lower-cased extension
  is \<open>.less\<close> the destination after \<open>replace(/\.less$/, '.css')\<close>, else the destination.
\<close>

definition writePath :: "pathlib \<Rightarrow> string \<times> string \<Rightarrow> string" where
  "writePath P sd =
     (case sd of (src, dest) \<Rightarrow>
        if toLowerCase (path_extname P src) = ''.less'' then replace_less_suffix dest else dest)"

text \<open>The callback of \<open>[...assetMap].map\<close> (lines 165-188): one transform, run to its end.\<close>

definition transform :: "pathlib \<Rightarrow> world \<Rightarrow> 'z cmdOptions \<Rightarrow> string \<times> string \<Rightarrow> error + fsop" where
  "transform P W opts sd =
     (case sd of (src, dest) \<Rightarrow>
        let ext = toLowerCase (path_extname P src)
        in if ext = ''.less'' then
             (let cssDest = replace_less_suffix dest
              in case readFile W src of
                   Inl e \<Rightarrow> Inl e
                 | Inr data \<Rightarrow>
                     (case less_render W data src of
                        Inl e \<Rightarrow> Inl e
                      | Inr css \<Rightarrow>
                          (case writeFile W cssDest css of
                             Some e \<Rightarrow> Inl e
                           | None \<Rightarrow> Inr (Written cssDest css))))
           else if ext = ''.xsl'' then
             (case readFile W src of
                Inl e \<Rightarrow> Inl e
              | Inr data \<Rightarrow>
                  (let processedData = xslProcess P opts data
                   in case writeFile W dest processedData of
                        Some e \<Rightarrow> Inl e
                      | None \<Rightarrow> Inr (Written dest processedData)))
           else
             (case copy W src dest of
                Some e \<Rightarrow> Inl e
              | None \<Rightarrow> Inr (Copied src dest)))"

subsection \<open>Promises\<close>

text \<open>
  The state a promise ends in. \<open>Pending\<close> is a promise that never settles. \<open>Promise.all\<close>
  rejects as soon as one member rejects, with that member's error; which one is first
  depends on timing, and the model takes the first in list order.
\<close>

datatype 'a promise = Fulfilled 'a | Rejected error | Pending

definition settled :: "error + 'a \<Rightarrow> 'a promise" where
  "settled r = (case r of Inl e \<Rightarrow> Rejected e | Inr v \<Rightarrow> Fulfilled v)"

fun Promise_all :: "'a promise list \<Rightarrow> 'a list promise" where
  "Promise_all [] = Fulfilled []"
| "Promise_all (p # ps) =
     (case p of
        Rejected e \<Rightarrow> Rejected e
      | Fulfilled v \<Rightarrow>
          (case Promise_all ps of
             Fulfilled vs \<Rightarrow> Fulfilled (v # vs)
           | Rejected e \<Rightarrow> Rejected e
           | Pending \<Rightarrow> Pending)
      | Pending \<Rightarrow>
          (case Promise_all ps of
             Rejected e \<Rightarrow> Rejected e
           | _ \<Rightarrow> Pending))"

text \<open>\<open>Promise.all([a, b])\<close> on two promises of different types.\<close>

definition Promise_all2 :: "'a promise \<Rightarrow> 'b promise \<Rightarrow> ('a \<times> 'b) promise" where
  "Promise_all2 a b =
     (case a of
        Rejected e \<Rightarrow> Rejected e
      | Fulfilled x \<Rightarrow>
          (case b of
             Fulfilled y \<Rightarrow> Fulfilled (x, y)
           | Rejected e \<Rightarrow> Rejected e
           | Pending \<Rightarrow> Pending)
      | Pending \<Rightarrow>
          (case b of
             Rejected e \<Rightarrow> Rejected e
           | _ \<Rightarrow> Pending))"

definition then_promise :: "'a promise \<Rightarrow> ('a \<Rightarrow> 'b promise) \<Rightarrow> 'b promise" where
  "then_promise p f =
     (case p of Fulfilled v \<Rightarrow> f v | Rejected e \<Rightarrow> Rejected e | Pending \<Rightarrow> Pending)"

text \<open>
  \<open>processAssets\<close> (lines 136-192). The promise it returns is made by
  \<open>new Promise((resolve, reject) => ...)\<close>; the executor calls \<open>resolve(assetMap)\<close> in the
  \<open>then\<close> of \<open>Promise.all\<close> and calls \<open>reject\<close> nowhere, so a rejection of \<open>Promise.all\<close>
  leaves the returned promise unsettled.
\<close>

definition processAssets :: "pathlib \<Rightarrow> world \<Rightarrow> 'z cmdOptions \<Rightarrow> 'z config \<Rightarrow> jsmap promise" where
  "processAssets P W opts config =
     (let assetMap = resolveAssets P opts (assetSources P config)
      in case Promise_all (map (\<lambda>sd. settled (transform P W opts sd)) assetMap) of
           Fulfilled _ \<Rightarrow> Fulfilled assetMap
         | Rejected e \<Rightarrow> Pending
         | Pending \<Rightarrow> Pending)"

text \<open>What the transforms that succeeded have done, in the order of the asset map.\<close>

definition assetOps :: "pathlib \<Rightarrow> world \<Rightarrow> 'z cmdOptions \<Rightarrow> 'z config \<Rightarrow> fsop list" where
  "assetOps P W opts config =
     concat (map (\<lambda>sd. case transform P W opts sd of Inl e \<Rightarrow> [] | Inr op \<Rightarrow> [op])
       (resolveAssets P opts (assetSources P config)))"

section \<open>The run\<close>

text \<open>
  \<open>process\<close> (lines 112-121): the items of the parsed summary are flattened and the
  renderer is run on the arguments built; the result is that argument list, or the
  exception thrown before the renderer was reached. What \<open>spawnSync\<close> returns is dropped
  (line 109).
\<close>

definition process ::
  "pathlib \<Rightarrow> world \<Rightarrow> 'z cmdOptions \<Rightarrow> 'z config \<Rightarrow> jsmap \<Rightarrow> string \<Rightarrow> error + 'z token list" where
  "process P W opts config assetMap xml =
     (case processNodes (tocItems W xml) 1 [] of
        Inl e \<Rightarrow> Inl e
      | Inr docList \<Rightarrow> doCommand P opts config assetMap docList)"

text \<open>
  \<open>processSummary\<close> (lines 195-207): the read stream of \<open>SUMMARY.html\<close> is piped into the
  tidy worker, and \<open>streamToPromise\<close> is given the worker. \<open>pipe\<close> does not pass errors
  on, so an error of the read stream (a summary that is missing or unreadable) has no
  listener: it is thrown as an uncaught exception, and the promise never settles. An error
  of the worker rejects the promise; otherwise the buffer is written to \<open>SUMMARY.xhtml\<close>
  and the promise is fulfilled with its text, or rejected with the error of the write.
  The result is the promise together with the uncaught exception, if any.
\<close>

definition processSummary ::
  "pathlib \<Rightarrow> world \<Rightarrow> 'z cmdOptions \<Rightarrow> string promise \<times> error option" where
  "processSummary P W opts =
     (case readStream W (path_join P (ebookDirectory opts) ''SUMMARY.html'') of
        Inl e \<Rightarrow> (Pending, Some e)
      | Inr html \<Rightarrow>
          (case tidy W html of
             Inl e \<Rightarrow> (Rejected e, None)
           | Inr buffer \<Rightarrow>
               (case writeFile W (path_join P (ebookDirectory opts) ''SUMMARY.xhtml'') buffer of
                  Some e \<Rightarrow> (Rejected e, None)
                | None \<Rightarrow> (Fulfilled buffer, None))))"

text \<open>
  \<open>maybeBuildBook\<close> (lines 125-133): GitBook is run unless \<open>--no-build\<close> was given and the
  working directory exists. The result is what \<open>spawnSync\<close> returned, which the source
  drops, or \<open>None\<close> when GitBook was not run.
\<close>

definition maybeBuildBook :: "world \<Rightarrow> 'z cmdOptions \<Rightarrow> spawn_result option" where
  "maybeBuildBook W opts =
     (if \<not> build opts \<and> isDirectory W (ebookDirectory opts) then None
      else Some (gitbook_result W))"

text \<open>
  The rejection that \<open>processAssets\<close> drops: the promise that
  \<open>Promise.all(...).then(() => resolve(assetMap))\<close> returns is rejected when a transform
  fails, and nothing handles it.
\<close>

definition droppedRejection ::
  "pathlib \<Rightarrow> world \<Rightarrow> 'z cmdOptions \<Rightarrow> 'z config \<Rightarrow> error option" where
  "droppedRejection P W opts config =
     (case Promise_all (map (\<lambda>sd. settled (transform P W opts sd))
             (resolveAssets P opts (assetSources P config))) of
        Rejected e \<Rightarrow> Some e
      | _ \<Rightarrow> None)"

text \<open>
  How a run ends. \<open>Uncaught e\<close>: an exception was thrown outside the promise chain (by the
  option parser, or by the read stream of the summary); the runtime prints it and ends the
  process. \<open>Logged e\<close>: the handler of the final \<open>.catch\<close> has printed the stack of \<open>e\<close> and
  the chain is fulfilled. \<open>Rendered args r\<close>: \<open>spawnSync('wkhtmltopdf', args, ...)\<close> was
  called and returned \<open>r\<close>, and the chain is fulfilled. \<open>Unsettled\<close>: the chain never
  settles, and neither the renderer nor the handler runs.
\<close>

datatype 'z outcome =
  Uncaught error | Logged error | Rendered "'z token list" spawn_result | Unsettled

text \<open>
  A run: how it ended, what \<open>spawnSync\<close> returned for GitBook if it was run, what the
  transforms that succeeded have done (when the run ends on an uncaught exception, the
  process may end before all of them are through), and the rejection nobody handles.
\<close>

record 'z run =
  outcome :: "'z outcome"
  gitbook :: "spawn_result option"
  asset_ops :: "fsop list"
  unhandled :: "error option"



text \<open>
  The two \<open>.then\<close> steps of the top-level chain (lines 228-244) once the configuration is
  loaded. The second \<open>.then\<close> of the source hangs off the promise the first one returns
  and reads the global \<open>config\<close> the first one has set.
\<close>

definition chain ::
  "pathlib \<Rightarrow> world \<Rightarrow> 'z cmdOptions \<Rightarrow> 'z rawConfig \<Rightarrow> 'z token list promise" where
  "chain P W opts rawConfig =
     (let config = mkConfig rawConfig
      in then_promise
           (Promise_all2 (fst (processSummary P W opts)) (processAssets P W opts config))
           (\<lambda>(xml, assetMap). settled (process P W opts config assetMap xml)))"

text \<open>
  The script from line 209 on. \<open>j\<close> is the value given to \<open>-j\<close>, if any; \<open>loaded\<close> is the
  promise of \<open>configLoader.loadConfig()\<close>. An exception of the option parser is thrown
  before anything else happens. A rejected load skips both \<open>.then\<close> steps and reaches the
  final \<open>.catch\<close>. After a load, GitBook is run if needed, the summary and the assets are
  processed, and the chain ends in the renderer or in the \<open>.catch\<close>, unless the read
  stream of the summary has thrown.
\<close>

definition main ::
  "pathlib \<Rightarrow> world \<Rightarrow> 'z cmdOptions \<Rightarrow> string option \<Rightarrow> 'z rawConfig promise \<Rightarrow> 'z run" where
  "main P W defaults j loaded =
     (case parseOptions defaults j of
        Inl e \<Rightarrow> \<lparr>outcome = Uncaught e, gitbook = None, asset_ops = [], unhandled = None\<rparr>
      | Inr opts \<Rightarrow>
          (case loaded of
             Rejected e \<Rightarrow>
               \<lparr>outcome = Logged e, gitbook = None, asset_ops = [], unhandled = None\<rparr>
           | Pending \<Rightarrow>
               \<lparr>outcome = Unsettled, gitbook = None, asset_ops = [], unhandled = None\<rparr>
           | Fulfilled rawConfig \<Rightarrow>
               \<lparr>outcome =
                  (case snd (processSummary P W opts) of
                     Some e \<Rightarrow> Uncaught e
                   | None \<Rightarrow>
                       (case chain P W opts rawConfig of
                          Fulfilled args \<Rightarrow> Rendered args (wkhtmltopdf_result W)
                        | Rejected e \<Rightarrow> Logged e
                        | Pending \<Rightarrow> Unsettled)),
                gitbook = maybeBuildBook W opts,
                asset_ops = assetOps P W opts (mkConfig rawConfig),
                unhandled = droppedRejection P W opts (mkConfig rawConfig)\<rparr>))"

section \<open>Readings of the specification\<close>

text \<open>
  A render delay that "parses as a non-negative integer", read generously: one or more
  decimal digits, with an optional plus sign.
\<close>

definition nonneg_integer :: "string \<Rightarrow> bool" where
  "nonneg_integer v =
     (let body = (if startsWith v ''+'' then drop 1 v else v)
      in body \<noteq> [] \<and> list_all is_digit body)"

section \<open>Example inputs\<close>

text \<open>
  Inputs for evaluating the definitions. Floating point values are written as their text.
  In \<open>ok_world\<close> every file can be read, compiled, written and copied, the summary has
  the items of \<open>example_toc\<close>, and both child processes exit with status 0.
\<close>

definition example_defaults :: "string cmdOptions" where
  "example_defaults =
     \<lparr>ebookDirectory = ''_ebook'', outputFile = ''book_wk.pdf'', zoom = ''1.2'',
      javascriptDelay = Finite 1000, build = True\<rparr>"

definition example_toc :: "li list" where
  "example_toc =
     [Li [''ch1.html''] ''One'' [Li [''ch1a.html''] ''One A'' [], Li [''ch1b.html''] ''One B'' []],
      Li [''ch2.html''] ''Two'' []]"

definition ok_world :: world where
  "ok_world =
     \<lparr>readFile = (\<lambda>p. Inr (''text of '' @ p)),
      less_render = (\<lambda>data name. Inr (''css of '' @ data)),
      writeFile = (\<lambda>p data. None),
      copy = (\<lambda>src dest. None),
      isDirectory = (\<lambda>p. True),
      readStream = (\<lambda>p. Inr (''html of '' @ p)),
      tidy = (\<lambda>html. Inr (''xhtml of '' @ html)),
      tocItems = (\<lambda>xml. example_toc),
      gitbook_result = Exited 0,
      wkhtmltopdf_result = Exited 0\<rparr>"

definition example_sources :: "string list" where
  "example_sources = [''/book/a/x.png'', ''/book/b/x.png'', ''/book/c/x.png'']"

text \<open>A configuration with no title, cover, TOC style sheet, header or footer template.\<close>

definition plain_config :: "string list \<Rightarrow> string config" where
  "plain_config as =
     \<lparr>root = ''/book'',
      margin = \<lparr>margin_top = Flt ''1'', margin_bottom = Flt ''1'',
                margin_left = Flt ''1'', margin_right = Flt ''1''\<rparr>,
      title = None, cover = None, tocXsl = None,
      header = \<lparr>contentHtml = None, spacing = Flt ''5''\<rparr>,
      footer = \<lparr>contentHtml = None, spacing = Flt ''5''\<rparr>,
      assets = as\<rparr>"

text \<open>
  The same instance for a process started in directory \<open>cwd\<close>: \<open>file-url\<close> resolves a
  relative path against the current directory.
\<close>

definition posix_at :: "string \<Rightarrow> pathlib" where
  "posix_at cwd =
     posix\<lparr>fileUrl := (\<lambda>p. posix_fileUrl (if startsWith p ''/'' then p else cwd @ ''/'' @ p))\<rparr>"

text \<open>The raw configuration around a \<open>wkhtmltopdf\<close> section, with no book title.\<close>

definition raw_of :: "string config \<Rightarrow> string rawConfig" where
  "raw_of config = \<lparr>raw_root = ''/book'', raw_title = None, wkhtmltopdf = config\<rparr>"

text \<open>A world in which every copy fails.\<close>

definition failing_world :: world where
  "failing_world = ok_world\<lparr>copy := (\<lambda>src dest. Some (Failure ''ENOENT''))\<rparr>"


text \<open>The plain configuration with a TOC style sheet, listed among the assets.\<close>

definition toc_config :: "string config" where
  "toc_config = (plain_config [''toc.xsl''])\<lparr>tocXsl := Some ''toc.xsl''\<rparr>"

text \<open>The page descriptors of two chapters.\<close>

definition two_docs :: "doc list" where
  "two_docs = [\<lparr>url = ''ch1.html'', doc_title = ''One'', level = 1\<rparr>,
               \<lparr>url = ''ch2.html'', doc_title = ''Two'', level = 1\<rparr>]"




text \<open>The plain configuration with a TOC style sheet that is not listed among the assets.\<close>

definition unlisted_toc_config :: "string config" where
  "unlisted_toc_config = (plain_config [])\<lparr>tocXsl := Some ''toc.xsl''\<rparr>"

text \<open>The plain configuration with a cover and a footer template, and nothing else.\<close>

definition cover_footer_config :: "string config" where
  "cover_footer_config =
     (plain_config [])\<lparr>cover := Some ''cover.jpg'',
                         footer := \<lparr>contentHtml = Some ''footer.html'', spacing = Flt ''5''\<rparr>\<rparr>"

section \<open>Properties\<close>

subsection \<open>The render delay option\<close>

lemma String_of_nat_digits: "list_all is_digit (String_of_nat n)"
proof (induction n rule: String_of_nat.induct)
  case (1 n)
  show ?case
  proof (cases "n < 10")
    case True
    then show ?thesis
      by (simp add: String_of_nat.simps [of n] is_digit_digit_char)
  next
    case False
    with 1 have "list_all is_digit (String_of_nat (n div 10))" by simp
    with False show ?thesis
      by (simp add: String_of_nat.simps [of n] is_digit_digit_char)
  qed
qed

lemma String_of_nat_nonempty: "String_of_nat n \<noteq> []"
  by (subst String_of_nat.simps) simp

lemma strip_sign_digits: "list_all is_digit s \<Longrightarrow> strip_sign s = s"
  by (cases s) (auto simp: is_digit_def)

lemma digits_not_Infinity: "list_all is_digit s \<Longrightarrow> s \<noteq> ''Infinity''"
  by (auto simp: is_digit_def)

lemma digits_no_minus: "list_all is_digit s \<Longrightarrow> \<not> startsWith s ''-''"
  by (cases s) (auto simp: is_digit_def startsWith_def)

lemma filterInt_test_iff:
  "filterInt_test v \<longleftrightarrow>
     (\<exists>sign body. v = sign @ body \<and> sign \<in> {[], ''+'', ''-''}
        \<and> (body = ''Infinity'' \<or> (body \<noteq> [] \<and> list_all is_digit body)))"
proof
  assume t: "filterInt_test v"
  show "\<exists>sign body. v = sign @ body \<and> sign \<in> {[], ''+'', ''-''}
        \<and> (body = ''Infinity'' \<or> (body \<noteq> [] \<and> list_all is_digit body))"
  proof (cases v)
    case Nil
    with t show ?thesis by (simp add: filterInt_test_def)
  next
    case (Cons c cs)
    show ?thesis
    proof (cases "c = CHR ''-'' \<or> c = CHR ''+''")
      case True
      with t Cons have "cs = ''Infinity'' \<or> (cs \<noteq> [] \<and> list_all is_digit cs)"
        by (auto simp: filterInt_test_def)
      moreover from True Cons have "v = [c] @ cs" "[c] \<in> {[], ''+'', ''-''}" by auto
      ultimately show ?thesis by blast
    next
      case False
      with t Cons have "v = ''Infinity'' \<or> (v \<noteq> [] \<and> list_all is_digit v)"
        by (auto simp: filterInt_test_def)
      then have "v = [] @ v \<and> [] \<in> {[], ''+'', ''-''}
          \<and> (v = ''Infinity'' \<or> (v \<noteq> [] \<and> list_all is_digit v))"
        by simp
      then show ?thesis by blast
    qed
  qed
next
  assume "\<exists>sign body. v = sign @ body \<and> sign \<in> {[], ''+'', ''-''}
        \<and> (body = ''Infinity'' \<or> (body \<noteq> [] \<and> list_all is_digit body))"
  then obtain sign body where v: "v = sign @ body" and s: "sign \<in> {[], ''+'', ''-''}"
    and b: "body = ''Infinity'' \<or> (body \<noteq> [] \<and> list_all is_digit body)" by blast
  have nosign: "body \<noteq> [] \<Longrightarrow> strip_sign body = body"
    using b by (cases body) (auto simp: is_digit_def)
  from b have "body \<noteq> []" by auto
  with s v nosign have "strip_sign v = body" by auto
  with b show "filterInt_test v" unfolding filterInt_test_def Let_def by blast
qed

lemma to_double_exact: "n \<le> 2 ^ 53 \<Longrightarrow> to_double n = Some n"
proof (cases "n < 2 ^ 53")
  case True
  then show ?thesis by (simp add: to_double_def)
next
  case False
  assume "n \<le> 2 ^ 53"
  with False have n: "n = 2 ^ 53" by simp
  have "to_double (2 ^ 53) = Some (2 ^ 53)"
    by (simp add: to_double_def bit_length.simps Let_def)
  with n show ?thesis by simp
qed

lemma filterInt_nat:
  "n \<le> 2 ^ 53 \<Longrightarrow> filterInt (String_of_nat n) = Inr (Finite (int n))"
  using String_of_nat_digits [of n] String_of_nat_nonempty [of n]
  by (simp add: filterInt_def filterInt_test_def Number_def strip_sign_digits
        digits_not_Infinity digits_no_minus digits_val_String_of_nat to_double_exact)

lemma filterInt_neg:
  "0 < n \<Longrightarrow> n \<le> 2 ^ 53 \<Longrightarrow>
     filterInt (CHR ''-'' # String_of_nat n) = Inr (Finite (- int n))"
  using String_of_nat_digits [of n] String_of_nat_nonempty [of n]
  by (simp add: filterInt_def filterInt_test_def Number_def startsWith_def
        digits_not_Infinity digits_val_String_of_nat to_double_exact)

text \<open>
  Beyond \<open>2 ^ 53\<close> the value is the nearest double: \<open>2 ^ 53 + 1\<close> lies halfway between two
  doubles and goes to the even one, \<open>2 ^ 53 + 3\<close> goes up, and the number written as 1
  followed by 309 zeros is infinite. \<open>-0\<close> is negative zero.
\<close>

lemma filterInt_String_of_nat:
  "filterInt (String_of_nat n)
     = Inr (case to_double n of None \<Rightarrow> PosInfinity | Some m \<Rightarrow> Finite (int m))"
  using String_of_nat_digits [of n] String_of_nat_nonempty [of n]
  by (simp add: filterInt_def filterInt_test_def Number_def strip_sign_digits
        digits_not_Infinity digits_no_minus digits_val_String_of_nat split: option.splits)

lemma to_double_examples:
  "to_double 9007199254740993 = Some 9007199254740992
   \<and> to_double 9007199254740995 = Some 9007199254740996"
  by (simp add: to_double_def bit_length.simps Let_def)

lemma to_double_overflow: "to_double (10 ^ 309) = None"
  by (simp add: to_double_def bit_length.simps Let_def)

lemma filterInt_rounds:
  "filterInt ''9007199254740993'' = Inr (Finite 9007199254740992)
   \<and> filterInt (String_of_nat (10 ^ 309)) = Inr PosInfinity
   \<and> filterInt ''-0'' = Inr NegZero"
proof -
  have dv: "digits_val ''9007199254740993'' = 9007199254740993"
    by (simp add: digits_val_def digit_val_def)
  have a: "filterInt ''9007199254740993'' = Inr (Finite 9007199254740992)"
    using to_double_examples
    by (simp add: filterInt_def filterInt_test_def is_digit_def Number_def startsWith_def dv)
  have b: "filterInt (String_of_nat (10 ^ 309)) = Inr PosInfinity"
    using to_double_overflow by (simp only: filterInt_String_of_nat option.case)
  have c: "filterInt ''-0'' = Inr NegZero"
    by (simp add: filterInt_def filterInt_test_def is_digit_def Number_def startsWith_def
          digits_val_def digit_val_def to_double_def)
  from a b c show ?thesis by blast
qed

text \<open>
  Claim C6, as amended. The render delay is accepted exactly when it is an optional sign
  (\<open>+\<close> or \<open>-\<close>) followed by one or more decimal digits or by the word \<open>Infinity\<close>; so
  negative integers are accepted too, and an integer of magnitude up to \<open>2 ^ 53\<close> is
  accepted with its exact value. A rejected value throws the error
  "Unable to parse ... as an integer." out of the option parser, before the configuration
  is loaded: the run ends uncaught, GitBook has not run and no asset has been touched.
\<close>

theorem filterInt_accepts_signed:
  "((\<exists>n. filterInt v = Inr n) \<longleftrightarrow>
      (\<exists>sign body. v = sign @ body \<and> sign \<in> {[], ''+'', ''-''}
         \<and> (body = ''Infinity'' \<or> (body \<noteq> [] \<and> list_all is_digit body))))
   \<and> (k \<le> 2 ^ 53 \<longrightarrow> filterInt (String_of_nat k) = Inr (Finite (int k)))
   \<and> (0 < k \<and> k \<le> 2 ^ 53 \<longrightarrow>
        filterInt (CHR ''-'' # String_of_nat k) = Inr (Finite (- int k)))
   \<and> (filterInt v = Inl e \<longrightarrow>
        e = Error (''Unable to parse '' @ [CHR 0x22] @ v @ [CHR 0x22] @ '' as an integer.'')
        \<and> main P W defaults (Some v) loaded
            = \<lparr>outcome = Uncaught e, gitbook = None, asset_ops = [], unhandled = None\<rparr>)"
proof -
  have "(\<exists>n. filterInt v = Inr n) \<longleftrightarrow> filterInt_test v"
    by (auto simp: filterInt_def)
  then have a: "(\<exists>n. filterInt v = Inr n) \<longleftrightarrow>
      (\<exists>sign body. v = sign @ body \<and> sign \<in> {[], ''+'', ''-''}
         \<and> (body = ''Infinity'' \<or> (body \<noteq> [] \<and> list_all is_digit body)))"
    by (simp only: filterInt_test_iff)
  have d: "filterInt v = Inl e \<longrightarrow>
        e = Error (''Unable to parse '' @ [CHR 0x22] @ v @ [CHR 0x22] @ '' as an integer.'')
        \<and> main P W defaults (Some v) loaded
            = \<lparr>outcome = Uncaught e, gitbook = None, asset_ops = [], unhandled = None\<rparr>"
    by (auto simp: filterInt_def main_def parseOptions_def split: if_splits)
  have b: "k \<le> 2 ^ 53 \<longrightarrow> filterInt (String_of_nat k) = Inr (Finite (int k))"
    using filterInt_nat by blast
  have c: "0 < k \<and> k \<le> 2 ^ 53 \<longrightarrow>
        filterInt (CHR ''-'' # String_of_nat k) = Inr (Finite (- int k))"
    using filterInt_neg by blast
  from a b c d show ?thesis by blast
qed

text \<open>The theorem at the rejected value \<open>12a\<close> and at the accepted value \<open>-5\<close>.\<close>

theorem filterInt_accepts_signed_witness:
  "filterInt ''12a'' = Inl (Error (''Unable to parse '' @ [CHR 0x22] @ ''12a'' @ [CHR 0x22] @ '' as an integer.''))
   \<and> main posix ok_world example_defaults (Some ''12a'') Pending
       = \<lparr>outcome = Uncaught (Error (''Unable to parse '' @ [CHR 0x22] @ ''12a'' @ [CHR 0x22] @ '' as an integer.'')),
          gitbook = None, asset_ops = [], unhandled = None\<rparr>
   \<and> filterInt ''5'' = Inr (Finite 5)
   \<and> filterInt ''-5'' = Inr (Finite (- 5))"
proof -
  have r: "filterInt ''12a'' = Inl (Error (''Unable to parse '' @ [CHR 0x22] @ ''12a'' @ [CHR 0x22] @ '' as an integer.''))"
    by (simp add: filterInt_def filterInt_test_def is_digit_def)
  have n: "String_of_nat 5 = ''5''" by (simp add: String_of_nat.simps digit_char_def)
  have k: "(0::nat) < 5" "(5::nat) \<le> 2 ^ 53" by simp_all
  from filterInt_accepts_signed
         [where v = "''12a''" and k = 5
            and e = "Error (''Unable to parse '' @ [CHR 0x22] @ ''12a'' @ [CHR 0x22] @ '' as an integer.'')"
            and P = posix and W = ok_world and defaults = example_defaults and loaded = Pending]
       r n k
  show ?thesis by simp
qed

text \<open>
  Claim C6 as stated fails: \<open>-5\<close> does not parse as a non-negative integer, and
  \<open>filterInt\<close> accepts it.
\<close>

theorem delay_nonneg_counterexample:
  "filterInt ''-5'' = Inr (Finite (- 5)) \<and> \<not> nonneg_integer ''-5''"
  by (simp add: filterInt_def filterInt_test_def Number_def nonneg_integer_def startsWith_def
        is_digit_def digits_val_def digit_val_def to_double_def)

subsection \<open>Flattening the table of contents\<close>

lemma processNodes_preorder:
  "list_all well_formed nodes \<Longrightarrow>
     processNodes nodes lvl docList = Inr (docList @ concat (map (preorder lvl) nodes))"
proof (induction nodes lvl docList rule: processNodes.induct)
  case (1 lvl docList)
  show ?case by simp
next
  case (2 hrefs label subNodes nodes lvl docList)
  from "2.prems" obtain h hs where hrefs: "hrefs = h # hs" by (cases hrefs) auto
  from "2.prems" have subs: "list_all well_formed subNodes" and rest: "list_all well_formed nodes"
    by auto
  let ?d = "\<lparr>url = h, doc_title = label, level = lvl\<rparr>"
  have a: "processNodes subNodes (lvl + 1) (docList @ [?d])
         = Inr ((docList @ [?d]) @ concat (map (preorder (lvl + 1)) subNodes))"
    using "2.IH"(1) [OF hrefs subs] .
  have b: "processNodes nodes lvl ((docList @ [?d]) @ concat (map (preorder (lvl + 1)) subNodes))
         = Inr (((docList @ [?d]) @ concat (map (preorder (lvl + 1)) subNodes))
                @ concat (map (preorder lvl) nodes))"
    using "2.IH"(2) [OF hrefs a rest] .
  show ?case using a b by (simp add: hrefs)
qed

lemma length_preorder: "length (preorder lvl n) = count_items n"
proof (induction n arbitrary: lvl)
  case (Li hrefs label subNodes)
  have "map (\<lambda>x. length (preorder (Suc lvl) x)) subNodes = map count_items subNodes"
    using Li.IH by (intro map_cong) auto
  then have "sum_list (map (\<lambda>x. length (preorder (Suc lvl) x)) subNodes)
      = sum_list (map count_items subNodes)" by (rule arg_cong [where f = sum_list])
  then show ?case by (simp add: length_concat comp_def)
qed

lemma fold_max_ge: "(a::nat) \<le> fold max xs a"
proof (induction xs arbitrary: a)
  case Nil
  show ?case by simp
next
  case (Cons x xs)
  have "a \<le> max x a" by simp
  also have "\<dots> \<le> fold max xs (max x a)" by (rule Cons.IH)
  finally show ?case by simp
qed

lemma fold_max_mem: "x \<in> set xs \<Longrightarrow> (x::nat) \<le> fold max xs a"
proof (induction xs arbitrary: a)
  case Nil
  then show ?case by simp
next
  case (Cons y ys)
  show ?case
  proof (cases "x = y")
    case True
    have "x \<le> max y a" using True by simp
    also have "\<dots> \<le> fold max ys (max y a)" by (rule fold_max_ge)
    finally show ?thesis by simp
  next
    case False
    with Cons.prems have "x \<in> set ys" by simp
    then show ?thesis using Cons.IH by simp
  qed
qed

lemma level_preorder:
  "d \<in> set (preorder lvl n) \<Longrightarrow> lvl \<le> level d \<and> level d < lvl + depth n"
proof (induction n arbitrary: lvl d)
  case (Li hrefs label subNodes)
  show ?case
  proof (cases "d = \<lparr>url = hd hrefs, doc_title = label, level = lvl\<rparr>")
    case True
    then show ?thesis by simp
  next
    case False
    with Li.prems obtain s where s: "s \<in> set subNodes" and d: "d \<in> set (preorder (Suc lvl) s)"
      by auto
    from Li.IH [OF s d] have "Suc lvl \<le> level d" "level d < Suc lvl + depth s" by auto
    moreover have "depth s \<le> fold max (map depth subNodes) 0"
      using s by (intro fold_max_mem) simp
    ultimately show ?thesis by simp
  qed
qed

text \<open>
  Claim C3. For a well-formed list of items (every item has a link address) the flattener
  succeeds and returns the pre-order sequence: each item's descriptor, then the descriptors
  of its sub-list one level deeper, then those of its following siblings; the top-level
  items are at level 1. The sequence has one descriptor per list item, and every level
  lies between 1 and the nesting depth of the list.
\<close>

theorem flatten_preorder:
  assumes "list_all well_formed nodes"
  shows "processNodes nodes 1 [] = Inr (concat (map (preorder 1) nodes))
    \<and> length (concat (map (preorder 1) nodes)) = sum_list (map count_items nodes)
    \<and> (\<forall>d \<in> set (concat (map (preorder 1) nodes)).
          1 \<le> level d \<and> level d \<le> fold max (map depth nodes) 0)"
proof -
  have a: "processNodes nodes 1 [] = Inr (concat (map (preorder 1) nodes))"
    using processNodes_preorder [OF assms, of 1 "[]"] by simp
  have b: "length (concat (map (preorder 1) nodes)) = sum_list (map count_items nodes)"
    by (simp add: length_concat comp_def length_preorder)
  have c: "1 \<le> level d \<and> level d \<le> fold max (map depth nodes) 0"
    if "d \<in> set (concat (map (preorder 1) nodes))" for d
  proof -
    from that obtain n where n: "n \<in> set nodes" and d: "d \<in> set (preorder 1 n)" by auto
    from level_preorder [OF d] have "1 \<le> level d" "level d < 1 + depth n" by auto
    moreover have "depth n \<le> fold max (map depth nodes) 0"
      using n by (intro fold_max_mem) simp
    ultimately show ?thesis by simp
  qed
  from a b c show ?thesis by blast
qed

text \<open>The theorem on a summary of two chapters, the first with two sections.\<close>

theorem flatten_preorder_witness:
  "list_all well_formed example_toc
   \<and> processNodes example_toc 1 []
       = Inr [\<lparr>url = ''ch1.html'', doc_title = ''One'', level = 1\<rparr>,
              \<lparr>url = ''ch1a.html'', doc_title = ''One A'', level = 2\<rparr>,
              \<lparr>url = ''ch1b.html'', doc_title = ''One B'', level = 2\<rparr>,
              \<lparr>url = ''ch2.html'', doc_title = ''Two'', level = 1\<rparr>]
   \<and> sum_list (map count_items example_toc) = 4
   \<and> fold max (map depth example_toc) 0 = 2"
proof -
  have wf: "list_all well_formed example_toc" by (simp add: example_toc_def)
  from flatten_preorder [OF wf] wf show ?thesis by (simp add: example_toc_def)
qed

subsection \<open>Destinations of the assets\<close>

lemma Map_set_fresh: "k \<notin> fst ` set m \<Longrightarrow> Map_set m k v = m @ [(k, v)]"
  unfolding Map_set_def by (induction m) auto

lemma assetDest_loop_spec:
  "\<exists>k\<ge>i. assetDest_loop rm base i = base @ ''_'' @ String_of_nat k
        \<and> \<not> Map_has rm (base @ ''_'' @ String_of_nat k)
        \<and> (\<forall>j. i \<le> j \<and> j < k \<longrightarrow> Map_has rm (base @ ''_'' @ String_of_nat j))"
proof (induction rm base i rule: assetDest_loop.induct)
  case (1 rm base i)
  show ?case
  proof (cases "Map_has rm (base @ ''_'' @ String_of_nat i)")
    case False
    then have "assetDest_loop rm base i = base @ ''_'' @ String_of_nat i"
      by (subst assetDest_loop.simps) simp
    with False show ?thesis by (intro exI [of _ i]) auto
  next
    case True
    then have eq: "assetDest_loop rm base i = assetDest_loop rm base (Suc i)"
      by (subst assetDest_loop.simps) simp
    from "1.IH" [OF refl] True
    obtain k where k: "Suc i \<le> k"
      "assetDest_loop rm base (Suc i) = base @ ''_'' @ String_of_nat k"
      "\<not> Map_has rm (base @ ''_'' @ String_of_nat k)"
      "\<forall>j. Suc i \<le> j \<and> j < k \<longrightarrow> Map_has rm (base @ ''_'' @ String_of_nat j)"
      by auto
    have "\<forall>j. i \<le> j \<and> j < k \<longrightarrow> Map_has rm (base @ ''_'' @ String_of_nat j)"
    proof (intro allI impI)
      fix j assume "i \<le> j \<and> j < k"
      then have "j = i \<or> (Suc i \<le> j \<and> j < k)" by auto
      then show "Map_has rm (base @ ''_'' @ String_of_nat j)" using True k(4) by auto
    qed
    with k eq show ?thesis by (intro exI [of _ k]) auto
  qed
qed

lemma chooseDest_fresh: "\<not> Map_has rm (chooseDest P opts rm src)"
proof -
  let ?b = "path_join P (ebookDirectory opts) (path_basename P src)"
  show ?thesis
  proof (cases "Map_has rm ?b")
    case True
    then have "chooseDest P opts rm src = assetDest_loop rm ?b 1"
      by (simp add: chooseDest_def Let_def)
    moreover from assetDest_loop_spec [of 1 rm ?b]
    have "\<not> Map_has rm (assetDest_loop rm ?b 1)" by metis
    ultimately show ?thesis by simp
  next
    case False
    then have "chooseDest P opts rm src = ?b" by (simp add: chooseDest_def Let_def)
    with False show ?thesis by simp
  qed
qed

lemma keys_swap: "fst ` set (map prod.swap am) = snd ` set am"
  by (induction am) auto

lemma assignDests_append:
  assumes "distinct srcs" "set srcs \<inter> fst ` set am = {}" "distinct (map snd am)"
  shows "\<exists>new. assignDests P opts srcs (am, map prod.swap am)
                 = (am @ new, map prod.swap (am @ new))
       \<and> map fst new = srcs
       \<and> distinct (map snd (am @ new))
       \<and> (\<forall>k < length srcs.
            snd (new ! k) = chooseDest P opts (map prod.swap (am @ take k new)) (srcs ! k))"
  using assms
proof (induction srcs arbitrary: am)
  case Nil
  then show ?case by simp
next
  case (Cons src rest)
  let ?rm = "map prod.swap am"
  let ?d = "chooseDest P opts ?rm src"
  let ?am1 = "am @ [(src, ?d)]"
  have fresh: "?d \<notin> snd ` set am"
    using chooseDest_fresh [of ?rm P opts src] unfolding Map_has_def keys_swap .
  have s_new: "src \<notin> fst ` set am" using Cons.prems by auto
  have am1: "Map_set am src ?d = ?am1" using s_new by (rule Map_set_fresh)
  have "?d \<notin> fst ` set ?rm" using fresh unfolding keys_swap .
  then have rm1: "Map_set ?rm ?d src = map prod.swap ?am1"
    by (simp add: Map_set_fresh)
  have step: "assignDests P opts (src # rest) (am, ?rm)
            = assignDests P opts rest (?am1, map prod.swap ?am1)"
    by (simp only: assignDests.simps Let_def am1 rm1)
  have p1: "distinct rest" using Cons.prems by simp
  have k1: "fst ` set ?am1 = insert src (fst ` set am)" by simp
  have "src \<notin> set rest" "set rest \<inter> fst ` set am = {}" using Cons.prems by auto
  then have p2: "set rest \<inter> fst ` set ?am1 = {}" unfolding k1 by blast
  have p3: "distinct (map snd ?am1)" using Cons.prems fresh by simp
  from Cons.IH [OF p1 p2 p3] obtain new' where nn:
    "assignDests P opts rest (?am1, map prod.swap ?am1)
       = (?am1 @ new', map prod.swap (?am1 @ new'))
     \<and> map fst new' = rest
     \<and> distinct (map snd (?am1 @ new'))
     \<and> (\<forall>k < length rest.
          snd (new' ! k) = chooseDest P opts (map prod.swap (?am1 @ take k new')) (rest ! k))"
    ..
  note n = nn [THEN conjunct1] nn [THEN conjunct2, THEN conjunct1]
    nn [THEN conjunct2, THEN conjunct2, THEN conjunct1]
    nn [THEN conjunct2, THEN conjunct2, THEN conjunct2]
  let ?new = "(src, ?d) # new'"
  have a: "assignDests P opts (src # rest) (am, ?rm) = (am @ ?new, map prod.swap (am @ ?new))"
    using step n(1) by simp
  have b: "map fst ?new = src # rest" using n(2) by simp
  have c: "distinct (map snd (am @ ?new))" using n(3) by simp
  have d: "\<forall>k < length (src # rest).
      snd (?new ! k) = chooseDest P opts (map prod.swap (am @ take k ?new)) ((src # rest) ! k)"
  proof (intro allI impI)
    fix k assume k: "k < length (src # rest)"
    show "snd (?new ! k) = chooseDest P opts (map prod.swap (am @ take k ?new)) ((src # rest) ! k)"
    proof (cases k)
      case 0
      then show ?thesis by simp
    next
      case (Suc k')
      with k have "k' < length rest" by simp
      with n(4) have "snd (new' ! k')
          = chooseDest P opts (map prod.swap (?am1 @ take k' new')) (rest ! k')" by blast
      with Suc show ?thesis by simp
    qed
  qed
  show ?case
    by (rule exI [of _ ?new]) (intro conjI a b c d)
qed


lemma chooseDest_spec:
  "(\<not> Map_has rm (path_join P (ebookDirectory opts) (path_basename P src)) \<longrightarrow>
       chooseDest P opts rm src = path_join P (ebookDirectory opts) (path_basename P src))
   \<and> (Map_has rm (path_join P (ebookDirectory opts) (path_basename P src)) \<longrightarrow>
       (\<exists>i\<ge>1. chooseDest P opts rm src
                 = path_join P (ebookDirectory opts) (path_basename P src) @ ''_'' @ String_of_nat i
          \<and> \<not> Map_has rm (chooseDest P opts rm src)
          \<and> (\<forall>j. 1 \<le> j \<and> j < i \<longrightarrow>
                Map_has rm (path_join P (ebookDirectory opts) (path_basename P src)
                             @ ''_'' @ String_of_nat j))))"
proof -
  let ?b = "path_join P (ebookDirectory opts) (path_basename P src)"
  have a: "\<not> Map_has rm ?b \<longrightarrow> chooseDest P opts rm src = ?b"
    by (simp add: chooseDest_def Let_def)
  have b: "\<exists>i\<ge>1. chooseDest P opts rm src = ?b @ ''_'' @ String_of_nat i
          \<and> \<not> Map_has rm (chooseDest P opts rm src)
          \<and> (\<forall>j. 1 \<le> j \<and> j < i \<longrightarrow> Map_has rm (?b @ ''_'' @ String_of_nat j))"
    if h: "Map_has rm ?b"
  proof -
    from h have c: "chooseDest P opts rm src = assetDest_loop rm ?b 1"
      by (simp add: chooseDest_def Let_def)
    from assetDest_loop_spec [of 1 rm ?b] obtain k where k:
      "1 \<le> k \<and> assetDest_loop rm ?b 1 = ?b @ ''_'' @ String_of_nat k
        \<and> \<not> Map_has rm (?b @ ''_'' @ String_of_nat k)
        \<and> (\<forall>j. 1 \<le> j \<and> j < k \<longrightarrow> Map_has rm (?b @ ''_'' @ String_of_nat j))"
      by blast
    from k have k1: "1 \<le> k" and k2: "assetDest_loop rm ?b 1 = ?b @ ''_'' @ String_of_nat k"
      and k3: "\<not> Map_has rm (?b @ ''_'' @ String_of_nat k)"
      and k4: "\<forall>j. 1 \<le> j \<and> j < k \<longrightarrow> Map_has rm (?b @ ''_'' @ String_of_nat j)"
      by blast+
    from k3 have k3': "\<not> Map_has rm (chooseDest P opts rm src)" unfolding c k2 .
    show ?thesis
      by (rule exI [of _ k]) (intro conjI k1 k3' k4, simp only: c k2)
  qed
  from a b show ?thesis by blast
qed

text \<open>
  Claim C2. For \<open>N\<close> distinct sources the resolver returns a map with exactly these \<open>N\<close>
  sources, in order, and \<open>N\<close> pairwise distinct destinations. A source whose candidate
  \<open>workingDir/basename(source)\<close> is not among the destinations assigned before it receives
  the candidate unchanged, so the first source with a given base name keeps the unsuffixed
  name; a source whose candidate is already assigned receives the candidate followed by
  \<open>_i\<close>, where \<open>i\<close> is the first integer from 1 upwards whose suffixed name is not yet
  assigned.
\<close>

theorem asset_destinations_unique:
  assumes "distinct srcs"
  shows "map fst (resolveAssets P opts srcs) = srcs
    \<and> length (resolveAssets P opts srcs) = length srcs
    \<and> distinct (map snd (resolveAssets P opts srcs))
    \<and> (\<forall>k < length srcs.
          (path_join P (ebookDirectory opts) (path_basename P (srcs ! k))
             \<notin> set (map snd (take k (resolveAssets P opts srcs))) \<longrightarrow>
           snd (resolveAssets P opts srcs ! k)
             = path_join P (ebookDirectory opts) (path_basename P (srcs ! k)))
        \<and> (path_join P (ebookDirectory opts) (path_basename P (srcs ! k))
             \<in> set (map snd (take k (resolveAssets P opts srcs))) \<longrightarrow>
           (\<exists>i\<ge>1. snd (resolveAssets P opts srcs ! k)
                    = path_join P (ebookDirectory opts) (path_basename P (srcs ! k))
                      @ ''_'' @ String_of_nat i
              \<and> snd (resolveAssets P opts srcs ! k)
                    \<notin> set (map snd (take k (resolveAssets P opts srcs)))
              \<and> (\<forall>j. 1 \<le> j \<and> j < i \<longrightarrow>
                    path_join P (ebookDirectory opts) (path_basename P (srcs ! k))
                      @ ''_'' @ String_of_nat j
                    \<in> set (map snd (take k (resolveAssets P opts srcs)))))))"
proof -
  from assignDests_append [of srcs "[]" P opts] assms obtain m where mm:
    "assignDests P opts srcs ([], map prod.swap []) = ([] @ m, map prod.swap ([] @ m))
     \<and> map fst m = srcs
     \<and> distinct (map snd ([] @ m))
     \<and> (\<forall>k < length srcs.
          snd (m ! k) = chooseDest P opts (map prod.swap ([] @ take k m)) (srcs ! k))"
    by auto
  from mm have r: "resolveAssets P opts srcs = m" by (simp add: resolveAssets_def)
  from mm have f: "map fst m = srcs" by simp
  from mm have d: "distinct (map snd m)" by simp
  from mm have c: "\<forall>k < length srcs.
      snd (m ! k) = chooseDest P opts (map prod.swap (take k m)) (srcs ! k)" by simp
  from f have l: "length m = length srcs" by (metis length_map)
  have has: "Map_has (map prod.swap (take k m)) x \<longleftrightarrow> x \<in> set (map snd (take k m))" for k x
    unfolding Map_has_def keys_swap by simp
  have e: "(path_join P (ebookDirectory opts) (path_basename P (srcs ! k))
             \<notin> set (map snd (take k m)) \<longrightarrow>
           snd (m ! k) = path_join P (ebookDirectory opts) (path_basename P (srcs ! k)))
        \<and> (path_join P (ebookDirectory opts) (path_basename P (srcs ! k))
             \<in> set (map snd (take k m)) \<longrightarrow>
           (\<exists>i\<ge>1. snd (m ! k)
                    = path_join P (ebookDirectory opts) (path_basename P (srcs ! k))
                      @ ''_'' @ String_of_nat i
              \<and> snd (m ! k) \<notin> set (map snd (take k m))
              \<and> (\<forall>j. 1 \<le> j \<and> j < i \<longrightarrow>
                    path_join P (ebookDirectory opts) (path_basename P (srcs ! k))
                      @ ''_'' @ String_of_nat j
                    \<in> set (map snd (take k m)))))"
    if k: "k < length srcs" for k
  proof -
    from c k have ck: "snd (m ! k) = chooseDest P opts (map prod.swap (take k m)) (srcs ! k)"
      by blast
    show ?thesis
      using chooseDest_spec [of "map prod.swap (take k m)" P opts "srcs ! k"]
      unfolding has ck [symmetric] .
  qed
  show ?thesis unfolding r using f l d e by blast
qed

lemma example_resolved:
  "resolveAssets posix example_defaults example_sources
     = [(''/book/a/x.png'', ''_ebook/x.png''), (''/book/b/x.png'', ''_ebook/x.png_1''),
        (''/book/c/x.png'', ''_ebook/x.png_2'')]"
  by code_simp

text \<open>The theorem on three sources that share the base name \<open>x.png\<close>.\<close>

theorem asset_destinations_unique_witness:
  "distinct example_sources
   \<and> resolveAssets posix example_defaults example_sources
     = [(''/book/a/x.png'', ''_ebook/x.png''), (''/book/b/x.png'', ''_ebook/x.png_1''),
        (''/book/c/x.png'', ''_ebook/x.png_2'')]
   \<and> distinct (map snd (resolveAssets posix example_defaults example_sources))"
proof -
  have d: "distinct example_sources" by (simp add: example_sources_def)
  from asset_destinations_unique [OF d, of posix example_defaults] d example_resolved
  show ?thesis by simp
qed

subsection \<open>Style sheets\<close>

lemma Set_add_all_distinct: "distinct s \<Longrightarrow> distinct (Set_add_all s xs)"
  by (induction xs arbitrary: s) auto

lemma assetSources_distinct: "distinct (assetSources P config)"
  by (simp add: assetSources_def new_Set_def Set_add_all_distinct)

lemma resolveAssets_keys:
  assumes "distinct srcs"
  shows "map fst (resolveAssets P opts srcs) = srcs"
    and "distinct (map snd (resolveAssets P opts srcs))"
proof -
  from assignDests_append [of srcs "[]" P opts] assms obtain m where mm:
    "assignDests P opts srcs ([], map prod.swap []) = ([] @ m, map prod.swap ([] @ m))
     \<and> map fst m = srcs
     \<and> distinct (map snd ([] @ m))
     \<and> (\<forall>k < length srcs.
          snd (m ! k) = chooseDest P opts (map prod.swap ([] @ take k m)) (srcs ! k))"
    by auto
  from mm have r: "resolveAssets P opts srcs = m" by (simp add: resolveAssets_def)
  from mm show "map fst (resolveAssets P opts srcs) = srcs" unfolding r by simp
  from mm show "distinct (map snd (resolveAssets P opts srcs))" unfolding r by simp
qed

lemma less_split:
  assumes "endsWith s ''.less''"
  shows "s = take (length s - 5) s @ ''.less''"
proof -
  have "length ''.less'' = 5" by simp
  with assms have "drop (length s - 5) s = ''.less''" unfolding endsWith_def by metis
  then show ?thesis by (metis append_take_drop_id)
qed

lemma distinct_dest_src:
  "distinct (map snd m) \<Longrightarrow> (a, d) \<in> set m \<Longrightarrow> (b, d) \<in> set m \<Longrightarrow> a = b"
  by (induction m) (auto simp: image_iff)

lemma css_not_less: "q @ ''.css'' \<noteq> p @ ''.less''"
proof
  assume "q @ ''.css'' = p @ ''.less''"
  then have "rev (q @ ''.css'') = rev (p @ ''.less'')" by simp
  then show False by simp
qed

lemma replace_less_suffix_less:
  "endsWith dest ''.less'' \<Longrightarrow> replace_less_suffix dest = take (length dest - 5) dest @ ''.css''"
  by (simp add: replace_less_suffix_def)

lemma replace_less_suffix_other:
  "\<not> endsWith dest ''.less'' \<Longrightarrow> replace_less_suffix dest = dest"
  by (simp add: replace_less_suffix_def)

lemma replace_less_suffix_not_less:
  assumes "endsWith dest ''.less''"
  shows "replace_less_suffix d \<noteq> dest"
proof (cases "endsWith d ''.less''")
  case True
  from less_split [OF assms] have e: "dest = take (length dest - 5) dest @ ''.less''" .
  have "take (length d - 5) d @ ''.css'' \<noteq> dest"
    by (subst e) (rule css_not_less)
  then show ?thesis by (simp add: replace_less_suffix_less [OF True])
next
  case False
  then show ?thesis using assms by (auto simp: replace_less_suffix_other)
qed

lemma transform_target:
  "transform P W opts sd = Inr op \<Longrightarrow> target op = writePath P sd"
  by (cases sd)
     (auto simp: transform_def writePath_def Let_def
           split: if_splits sum.splits option.splits)

lemma transform_less:
  "toLowerCase (path_extname P src) = ''.less'' \<Longrightarrow> transform P W opts (src, dest) = Inr op \<Longrightarrow>
     \<exists>css. op = Written (replace_less_suffix dest) css"
  by (auto simp: transform_def Let_def split: sum.splits option.splits)

lemma processAssets_Fulfilled:
  "processAssets P W opts config = Fulfilled m \<Longrightarrow>
     m = resolveAssets P opts (assetSources P config)"
  by (auto simp: processAssets_def Let_def split: promise.splits)

text \<open>
  For a style-sheet asset (lower-cased source extension \<open>.less\<close>) whose assigned
  destination ends in \<open>.less\<close> the rewrite of line 169 applies: the transform writes the
  compiled text to the destination with the final \<open>.less\<close> replaced by \<open>.css\<close>; the asset
  map the resolver returns records the \<open>.less\<close> destination for the source; and no
  transform of the run writes to that recorded destination.
\<close>

lemma less_asset_written_as_css:
  assumes "(src, dest) \<in> set (resolveAssets P opts (assetSources P config))"
      and "toLowerCase (path_extname P src) = ''.less''"
      and "endsWith dest ''.less''"
  shows "writePath P (src, dest) = take (length dest - 5) dest @ ''.css''
    \<and> (\<forall>op. transform P W opts (src, dest) = Inr op \<longrightarrow>
          (\<exists>css. op = Written (take (length dest - 5) dest @ ''.css'') css))
    \<and> (\<forall>m. processAssets P W opts config = Fulfilled m \<longrightarrow> Map_get m src = Some dest)
    \<and> (\<forall>sd \<in> set (resolveAssets P opts (assetSources P config)). writePath P sd \<noteq> dest)"
proof -
  let ?m = "resolveAssets P opts (assetSources P config)"
  have keys: "distinct (map fst ?m)" and dests: "distinct (map snd ?m)"
    using resolveAssets_keys [OF assetSources_distinct, of P opts P config]
      assetSources_distinct [of P config] by simp_all
  have a: "writePath P (src, dest) = take (length dest - 5) dest @ ''.css''"
    using assms(2,3) by (simp add: writePath_def replace_less_suffix_less)
  have b: "\<exists>css. op = Written (take (length dest - 5) dest @ ''.css'') css"
    if "transform P W opts (src, dest) = Inr op" for op
    using transform_less [OF assms(2) that] assms(3) by (simp add: replace_less_suffix_less)
  have c: "Map_get m src = Some dest" if "processAssets P W opts config = Fulfilled m" for m
  proof -
    from processAssets_Fulfilled [OF that] have "m = ?m" .
    with keys assms(1) show ?thesis by (simp add: Map_get_def)
  qed
  have d: "writePath P sd \<noteq> dest" if sd: "sd \<in> set ?m" for sd
  proof (cases sd)
    case (Pair s d')
    show ?thesis
    proof (cases "toLowerCase (path_extname P s) = ''.less''")
      case True
      then have "writePath P sd = replace_less_suffix d'" by (simp add: Pair writePath_def)
      then show ?thesis using replace_less_suffix_not_less [OF assms(3)] by simp
    next
      case False
      then have w: "writePath P sd = d'" by (simp add: Pair writePath_def)
      show ?thesis
      proof
        assume "writePath P sd = dest"
        with w have "d' = dest" by simp
        with sd Pair have "(s, dest) \<in> set ?m" by simp
        with assms(1) dests have "s = src" by (metis distinct_dest_src)
        with False assms(2) show False by simp
      qed
    qed
  qed
  from a b c d show ?thesis by blast
qed


text \<open>So it is for the first of two style sheets named \<open>x.less\<close>.\<close>

lemma less_asset_written_as_css_first:
  "(''/book/a/x.less'', ''_ebook/x.less'')
      \<in> set (resolveAssets posix example_defaults
               (assetSources posix (plain_config [''a/x.less'', ''b/x.less''])))
   \<and> toLowerCase (path_extname posix ''/book/a/x.less'') = ''.less''
   \<and> endsWith ''_ebook/x.less'' ''.less''
   \<and> writePath posix (''/book/a/x.less'', ''_ebook/x.less'') = ''_ebook/x.css''
   \<and> transform posix ok_world example_defaults (''/book/a/x.less'', ''_ebook/x.less'')
       = Inr (Written ''_ebook/x.css'' ''css of text of /book/a/x.less'')"
proof -
  have a: "(''/book/a/x.less'', ''_ebook/x.less'')
      \<in> set (resolveAssets posix example_defaults
               (assetSources posix (plain_config [''a/x.less'', ''b/x.less''])))"
    by code_simp
  have b: "toLowerCase (path_extname posix ''/book/a/x.less'') = ''.less''" by code_simp
  have c: "endsWith ''_ebook/x.less'' ''.less''" by code_simp
  have t: "transform posix ok_world example_defaults (''/book/a/x.less'', ''_ebook/x.less'')
       = Inr (Written ''_ebook/x.css'' ''css of text of /book/a/x.less'')"
    by code_simp
  from less_asset_written_as_css [OF a b c, of ok_world] a b c t
  show ?thesis by simp
qed

text \<open>
  Claim C10 at the second of the two style sheets. The asset is a style sheet, its
  assigned destination is \<open>_ebook/x.less_1\<close>, and the rewrite of line 169 does not match a
  name with a collision suffix: the compiled text is written to the recorded destination
  itself, under a name without \<open>.css\<close>, while the first sheet is written to
  \<open>_ebook/x.css\<close>.
\<close>

theorem less_suffixed_written_in_place:
  "resolveAssets posix example_defaults
       (assetSources posix (plain_config [''a/x.less'', ''b/x.less'']))
     = [(''/book/a/x.less'', ''_ebook/x.less''), (''/book/b/x.less'', ''_ebook/x.less_1'')]
   \<and> toLowerCase (path_extname posix ''/book/b/x.less'') = ''.less''
   \<and> transform posix ok_world example_defaults (''/book/b/x.less'', ''_ebook/x.less_1'')
       = Inr (Written ''_ebook/x.less_1'' ''css of text of /book/b/x.less'')
   \<and> assetOps posix ok_world example_defaults (plain_config [''a/x.less'', ''b/x.less''])
       = [Written ''_ebook/x.css'' ''css of text of /book/a/x.less'',
          Written ''_ebook/x.less_1'' ''css of text of /book/b/x.less'']"
  by code_simp

subsection \<open>Paths written by the transforms\<close>

text \<open>
  Claim C7 at the assets \<open>a/style.less\<close> and \<open>b/style.css\<close>: the destinations recorded in
  the map differ, and both transforms write to \<open>_ebook/style.css\<close>.
\<close>

theorem less_css_write_collision:
  "resolveAssets posix example_defaults
       (assetSources posix (plain_config [''a/style.less'', ''b/style.css'']))
     = [(''/book/a/style.less'', ''_ebook/style.less''),
        (''/book/b/style.css'', ''_ebook/style.css'')]
   \<and> map (writePath posix)
        (resolveAssets posix example_defaults
           (assetSources posix (plain_config [''a/style.less'', ''b/style.css''])))
     = [''_ebook/style.css'', ''_ebook/style.css'']
   \<and> assetOps posix ok_world example_defaults (plain_config [''a/style.less'', ''b/style.css''])
     = [Written ''_ebook/style.css'' ''css of text of /book/a/style.less'',
        Copied ''/book/b/style.css'' ''_ebook/style.css'']"
  by code_simp

subsection \<open>The template substitution\<close>

text \<open>
  Claim C8 for a run started in \<open>/home/me/my book dir\<close> with the default working directory
  \<open>_ebook\<close>: the file URL has two \<open>%20\<close>, the URL substituted for the placeholder has a
  space for the first and still \<open>%20\<close> for the second, and that text is written to the
  destination.
\<close>

theorem xsl_url_keeps_later_spaces:
  "getQTCompatibleFileUrl (posix_at ''/home/me/my book dir'') (ebookDirectory example_defaults)
     = ''file:///home/me/my%20book%20dir/_ebook''
   \<and> xslUrl (posix_at ''/home/me/my book dir'') example_defaults
     = ''file:///home/me/my book%20dir/_ebook''
   \<and> transform (posix_at ''/home/me/my book dir'')
        (ok_world\<lparr>readFile := (\<lambda>p. Inr ''<a>%url_current_dir%/x</a>'')\<rparr>) example_defaults
        (''/book/toc.xsl'', ''_ebook/toc.xsl'')
     = Inr (Written ''_ebook/toc.xsl'' ''<a>file:///home/me/my book%20dir/_ebook/x</a>'')"
  by code_simp

subsection \<open>The order of the render arguments\<close>

lemma truthy_Some: "truthy v \<Longrightarrow> \<exists>s. v = Some s \<and> s \<noteq> []"
  by (cases v) (auto simp: truthy_def)

lemma not_truthy: "\<not> truthy v \<Longrightarrow> v = None \<or> v = Some []"
  by (cases v) (auto simp: truthy_def)

lemma getAssetDescPath_eq:
  "getAssetDescPath P config assetMap x = map_of assetMap (path_join P (root config) x)"
  by (simp add: getAssetDescPath_def getAssetSrcPath_def Map_get_def)

lemma titleArgs_eq:
  "titleArgs config = (if truthy (title config) then [Str ''--title'', Str (the (title config))] else [])"
  by (auto simp: titleArgs_def truthy_def split: option.splits)

lemma coverArgs_eq:
  assumes "truthy (cover config) \<Longrightarrow>
             map_of assetMap (path_join P (root config) (the (cover config))) = Some coverDest"
  shows "coverArgs P opts config assetMap =
           Inr (if truthy (cover config)
                then [Str ''cover'', Str (path_relative P (ebookDirectory opts) coverDest),
                      Str ''--exclude-from-outline''] @ argsForAllPages opts
                else [])"
proof (cases "truthy (cover config)")
  case True
  then obtain x where x: "cover config = Some x" "x \<noteq> []" using truthy_Some by blast
  from assms [OF True] x have "getAssetDescPath P config assetMap x = Some coverDest"
    by (simp add: getAssetDescPath_eq)
  with True x show ?thesis by (simp add: coverArgs_def)
next
  case False
  then have "cover config = None \<or> cover config = Some []" by (rule not_truthy)
  with False show ?thesis by (auto simp: coverArgs_def)
qed

lemma tocArgs_eq:
  assumes "truthy (tocXsl config) \<Longrightarrow>
             map_of assetMap (path_join P (root config) (the (tocXsl config))) = Some tocDest"
  shows "tocArgs P opts config assetMap =
           Inr (Str ''toc'' # argsForAllPages opts @
                (if truthy (tocXsl config)
                 then [Str ''--xsl-style-sheet'', Str (path_relative P (ebookDirectory opts) tocDest)]
                 else []))"
proof (cases "truthy (tocXsl config)")
  case True
  then obtain x where x: "tocXsl config = Some x" "x \<noteq> []" using truthy_Some by blast
  from assms [OF True] x have "getAssetDescPath P config assetMap x = Some tocDest"
    by (simp add: getAssetDescPath_eq)
  with True x show ?thesis by (simp add: tocArgs_def)
next
  case False
  then have "tocXsl config = None \<or> tocXsl config = Some []" by (rule not_truthy)
  with False show ?thesis by (auto simp: tocArgs_def)
qed

lemma tocArgs_missing:
  assumes "truthy (tocXsl config)"
      and "map_of assetMap (path_join P (root config) (the (tocXsl config))) = None"
  shows "tocArgs P opts config assetMap = Inl TypeError"
proof -
  from assms(1) obtain x where x: "tocXsl config = Some x" "x \<noteq> []" using truthy_Some by blast
  with assms(2) show ?thesis by (simp add: tocArgs_def getAssetDescPath_eq)
qed

lemma sectionArgs_eq:
  assumes "truthy (contentHtml s) \<Longrightarrow>
             map_of assetMap (path_join P (root config) (the (contentHtml s))) = Some d"
  shows "sectionArgs P config assetMap name s =
           Inr (if truthy (contentHtml s)
                then [Str (''--'' @ name @ ''-html''), Str (getQTCompatibleFileUrl P d),
                      Str (''--'' @ name @ ''-spacing''), spacing s]
                else [])"
proof (cases "truthy (contentHtml s)")
  case True
  then obtain x where x: "contentHtml s = Some x" "x \<noteq> []" using truthy_Some by blast
  from assms [OF True] x have "getAssetDescPath P config assetMap x = Some d"
    by (simp add: getAssetDescPath_eq)
  with True x show ?thesis by (simp add: sectionArgs_def)
next
  case False
  then have "contentHtml s = None \<or> contentHtml s = Some []" by (rule not_truthy)
  with False show ?thesis by (auto simp: sectionArgs_def)
qed

text \<open>
  The argument list for any asset map in which every configured reference is found.
\<close>

lemma doCommand_resolved:
  assumes c: "truthy (cover config) \<Longrightarrow>
             map_of assetMap (path_join P (root config) (the (cover config))) = Some coverDest"
      and t: "truthy (tocXsl config) \<Longrightarrow>
             map_of assetMap (path_join P (root config) (the (tocXsl config))) = Some tocDest"
      and h: "truthy (contentHtml (header config)) \<Longrightarrow>
             map_of assetMap (path_join P (root config) (the (contentHtml (header config))))
               = Some headerDest"
      and f: "truthy (contentHtml (footer config)) \<Longrightarrow>
             map_of assetMap (path_join P (root config) (the (contentHtml (footer config))))
               = Some footerDest"
  shows "doCommand P opts config assetMap docList =
     (let shared = [Str ''--zoom'', Flt (zoom opts), Str ''--debug-javascript'',
                    Str ''--javascript-delay'', Num (javascriptDelay opts)];
          perPage = shared
            @ (if truthy (contentHtml (header config))
               then [Str ''--header-html'', Str (getQTCompatibleFileUrl P headerDest),
                     Str ''--header-spacing'', spacing (header config)]
               else [])
            @ (if truthy (contentHtml (footer config))
               then [Str ''--footer-html'', Str (getQTCompatibleFileUrl P footerDest),
                     Str ''--footer-spacing'', spacing (footer config)]
               else [])
      in Inr ([Str ''-T'', margin_top (margin config), Str ''-B'', margin_bottom (margin config),
               Str ''-L'', margin_left (margin config), Str ''-R'', margin_right (margin config)]
              @ (if truthy (title config) then [Str ''--title'', Str (the (title config))] else [])
              @ (if truthy (cover config)
                 then [Str ''cover'', Str (path_relative P (ebookDirectory opts) coverDest),
                       Str ''--exclude-from-outline''] @ shared
                 else [])
              @ [Str ''toc''] @ shared
              @ (if truthy (tocXsl config)
                 then [Str ''--xsl-style-sheet'', Str (path_relative P (ebookDirectory opts) tocDest)]
                 else [])
              @ concat (map (\<lambda>d. Str (path_normalize P (url d)) # perPage) docList)
              @ [Str (path_relative P (ebookDirectory opts) (outputFile opts))]))"
proof -
  have pa: "pageArgs P a = (\<lambda>d. Str (path_normalize P (url d)) # a)" for a
    by (rule ext) (simp add: pageArgs_def)
  show ?thesis
    by (simp only: doCommand_def coverArgs_eq [OF c] tocArgs_eq [OF t]
          sectionArgs_eq [OF h] sectionArgs_eq [OF f] titleArgs_eq marginArgs_def pa
          argsForAllPages_def Let_def sum.case)
       simp
qed

lemma coverArgs_Inl:
  "coverArgs P opts config assetMap = Inl e \<Longrightarrow>
     e = TypeError \<and> truthy (cover config)
     \<and> map_of assetMap (path_join P (root config) (the (cover config))) = None"
  by (auto simp: coverArgs_def truthy_def getAssetDescPath_eq split: option.splits if_splits)

lemma tocArgs_Inl:
  "tocArgs P opts config assetMap = Inl e \<Longrightarrow>
     e = TypeError \<and> truthy (tocXsl config)
     \<and> map_of assetMap (path_join P (root config) (the (tocXsl config))) = None"
  by (auto simp: tocArgs_def truthy_def getAssetDescPath_eq split: option.splits if_splits)

lemma sectionArgs_Inl:
  "sectionArgs P config assetMap name s = Inl e \<Longrightarrow>
     e = TypeError \<and> truthy (contentHtml s)
     \<and> map_of assetMap (path_join P (root config) (the (contentHtml s))) = None"
  by (auto simp: sectionArgs_def truthy_def getAssetDescPath_eq split: option.splits if_splits)

lemma doCommand_Inl:
  assumes "doCommand P opts config assetMap docList = Inl e"
  shows "e = TypeError
    \<and> (\<exists>a \<in> {cover config, tocXsl config, contentHtml (header config),
                contentHtml (footer config)}.
          truthy a \<and> map_of assetMap (path_join P (root config) (the a)) = None)"
proof -
  from assms consider
      (c) "coverArgs P opts config assetMap = Inl e"
    | (t) "tocArgs P opts config assetMap = Inl e"
    | (h) "sectionArgs P config assetMap ''header'' (header config) = Inl e"
    | (f) "sectionArgs P config assetMap ''footer'' (footer config) = Inl e"
    by (auto simp: doCommand_def Let_def split: sum.splits)
  then show ?thesis
  proof cases
    case c
    from coverArgs_Inl [OF c] show ?thesis by blast
  next
    case t
    from tocArgs_Inl [OF t] show ?thesis by blast
  next
    case h
    from sectionArgs_Inl [OF h] show ?thesis by blast
  next
    case f
    from sectionArgs_Inl [OF f] show ?thesis by blast
  qed
qed

text \<open>
  The asset map of the program: every truthy cover, header template and footer template is
  among the sources (lines 138-140) and so has a destination; the TOC style sheet is among
  them only when the configuration lists it in \<open>assets\<close>.
\<close>

lemma set_Set_add_all: "set (Set_add_all s xs) = set s \<union> set xs"
  by (induction xs arbitrary: s) auto

lemma truthy_kept:
  "Some x \<in> set vs \<Longrightarrow> x \<noteq> [] \<Longrightarrow> x \<in> set (map the (filter truthy vs))"
proof -
  assume a: "Some x \<in> set vs" "x \<noteq> []"
  then have "truthy (Some x)" by (simp add: truthy_def)
  with a(1) have "Some x \<in> set (filter truthy vs)" by simp
  then have "the (Some x) \<in> the ` set (filter truthy vs)" by (rule imageI)
  then show ?thesis by simp
qed

lemma assetSources_collects:
  assumes "Some x \<in> {cover config, contentHtml (header config), contentHtml (footer config)}"
      and "x \<noteq> []"
  shows "path_join P (root config) x \<in> set (assetSources P config)"
proof -
  let ?vs = "map Some (assets config)
             @ [cover config, contentHtml (header config), contentHtml (footer config)]"
  from assms(1) have "Some x \<in> set ?vs" by auto
  from truthy_kept [OF this assms(2)]
  have "path_join P (root config) x
          \<in> path_join P (root config) ` set (map the (filter truthy ?vs))"
    by (rule imageI)
  then show ?thesis
    by (simp only: assetSources_def new_Set_def set_Set_add_all set_map) simp
qed

lemma resolved_lookup:
  "map_of (resolveAssets P opts (assetSources P config)) s \<noteq> None
     \<longleftrightarrow> s \<in> set (assetSources P config)"
proof -
  have "map fst (resolveAssets P opts (assetSources P config)) = assetSources P config"
    using resolveAssets_keys(1) [OF assetSources_distinct] .
  then have "fst ` set (resolveAssets P opts (assetSources P config)) = set (assetSources P config)"
    by (metis set_map)
  then show ?thesis by (simp add: map_of_eq_None_iff)
qed

lemma collected:
  assumes "truthy a"
      and "a \<in> {cover config, contentHtml (header config), contentHtml (footer config)}"
  shows "\<exists>d. map_of (resolveAssets P opts (assetSources P config))
                (path_join P (root config) (the a)) = Some d"
proof -
  from assms(1) obtain x where x: "a = Some x" "x \<noteq> []" using truthy_Some by blast
  with assms(2) have "path_join P (root config) x \<in> set (assetSources P config)"
    by (intro assetSources_collects) auto
  then have "map_of (resolveAssets P opts (assetSources P config)) (path_join P (root config) x)
               \<noteq> None"
    by (simp only: resolved_lookup)
  with x show ?thesis by auto
qed


text \<open>
  Claim C9. On the asset map of the program the builder fails in one case only: a TOC
  style sheet that is configured and not among the asset sources. In every other case it
  returns the argument list below, in which the title, the cover block, the style sheet
  option, the header options and the footer options each appear exactly when the
  corresponding reference is configured, in any combination, and contribute no token when
  it is not; the destinations in it are the ones the resolver has recorded for the
  sources. With none of
  the four assets configured the builder succeeds for any asset map, and whenever the
  builder fails, it is on a reference that is configured and has no destination in the
  map, never on one that is not configured.
\<close>

theorem unconfigured_assets_omitted:
  "doCommand P opts config (resolveAssets P opts (assetSources P config)) docList =
     (if truthy (tocXsl config)
         \<and> path_join P (root config) (the (tocXsl config)) \<notin> set (assetSources P config)
      then Inl TypeError
      else (let dest = (\<lambda>a. the (map_of (resolveAssets P opts (assetSources P config))
                                    (path_join P (root config) (the a))));
                shared = [Str ''--zoom'', Flt (zoom opts), Str ''--debug-javascript'',
                          Str ''--javascript-delay'', Num (javascriptDelay opts)];
                perPage = shared
                  @ (if truthy (contentHtml (header config))
                     then [Str ''--header-html'',
                           Str (getQTCompatibleFileUrl P (dest (contentHtml (header config)))),
                           Str ''--header-spacing'', spacing (header config)]
                     else [])
                  @ (if truthy (contentHtml (footer config))
                     then [Str ''--footer-html'',
                           Str (getQTCompatibleFileUrl P (dest (contentHtml (footer config)))),
                           Str ''--footer-spacing'', spacing (footer config)]
                     else [])
            in Inr ([Str ''-T'', margin_top (margin config), Str ''-B'', margin_bottom (margin config),
                     Str ''-L'', margin_left (margin config), Str ''-R'', margin_right (margin config)]
                    @ (if truthy (title config) then [Str ''--title'', Str (the (title config))]
                       else [])
                    @ (if truthy (cover config)
                       then [Str ''cover'',
                             Str (path_relative P (ebookDirectory opts) (dest (cover config))),
                             Str ''--exclude-from-outline''] @ shared
                       else [])
                    @ [Str ''toc''] @ shared
                    @ (if truthy (tocXsl config)
                       then [Str ''--xsl-style-sheet'',
                             Str (path_relative P (ebookDirectory opts) (dest (tocXsl config)))]
                       else [])
                    @ concat (map (\<lambda>d. Str (path_normalize P (url d)) # perPage) docList)
                    @ [Str (path_relative P (ebookDirectory opts) (outputFile opts))])))
   \<and> (\<forall>a \<in> {cover config, contentHtml (header config), contentHtml (footer config)}.
         truthy a \<longrightarrow>
           (path_join P (root config) (the a),
            the (map_of (resolveAssets P opts (assetSources P config))
                   (path_join P (root config) (the a))))
             \<in> set (resolveAssets P opts (assetSources P config)))
   \<and> (truthy (tocXsl config)
        \<and> path_join P (root config) (the (tocXsl config)) \<in> set (assetSources P config) \<longrightarrow>
         (path_join P (root config) (the (tocXsl config)),
          the (map_of (resolveAssets P opts (assetSources P config))
                 (path_join P (root config) (the (tocXsl config)))))
           \<in> set (resolveAssets P opts (assetSources P config)))
   \<and> (\<not> truthy (cover config) \<and> \<not> truthy (tocXsl config)
        \<and> \<not> truthy (contentHtml (header config)) \<and> \<not> truthy (contentHtml (footer config)) \<longrightarrow>
      doCommand P opts config assetMap docList =
        Inr ([Str ''-T'', margin_top (margin config), Str ''-B'', margin_bottom (margin config),
              Str ''-L'', margin_left (margin config), Str ''-R'', margin_right (margin config)]
             @ (if truthy (title config) then [Str ''--title'', Str (the (title config))] else [])
             @ [Str ''toc'', Str ''--zoom'', Flt (zoom opts), Str ''--debug-javascript'',
                Str ''--javascript-delay'', Num (javascriptDelay opts)]
             @ concat (map (\<lambda>d. [Str (path_normalize P (url d)), Str ''--zoom'', Flt (zoom opts),
                                  Str ''--debug-javascript'', Str ''--javascript-delay'',
                                  Num (javascriptDelay opts)]) docList)
             @ [Str (path_relative P (ebookDirectory opts) (outputFile opts))]))
   \<and> (doCommand P opts config assetMap docList = Inl e \<longrightarrow>
        e = TypeError
        \<and> (\<exists>a \<in> {cover config, tocXsl config, contentHtml (header config),
                    contentHtml (footer config)}.
              truthy a \<and> map_of assetMap (path_join P (root config) (the a)) = None))"
proof -
  let ?m = "resolveAssets P opts (assetSources P config)"
  let ?dest = "\<lambda>a. the (map_of ?m (path_join P (root config) (the a)))"
  have found: "map_of ?m (path_join P (root config) (the a)) = Some (?dest a)"
    if "truthy a" "a \<in> {cover config, contentHtml (header config), contentHtml (footer config)}"
    for a
    using collected [OF that, of P opts] by auto
  have c: "truthy (cover config) \<Longrightarrow>
      map_of ?m (path_join P (root config) (the (cover config))) = Some (?dest (cover config))"
    by (rule found) simp_all
  have h: "truthy (contentHtml (header config)) \<Longrightarrow>
      map_of ?m (path_join P (root config) (the (contentHtml (header config))))
        = Some (?dest (contentHtml (header config)))"
    by (rule found) simp_all
  have f: "truthy (contentHtml (footer config)) \<Longrightarrow>
      map_of ?m (path_join P (root config) (the (contentHtml (footer config))))
        = Some (?dest (contentHtml (footer config)))"
    by (rule found) simp_all
  have one: "doCommand P opts config ?m docList =
     (if truthy (tocXsl config)
         \<and> path_join P (root config) (the (tocXsl config)) \<notin> set (assetSources P config)
      then Inl TypeError
      else (let dest = ?dest;
                shared = [Str ''--zoom'', Flt (zoom opts), Str ''--debug-javascript'',
                          Str ''--javascript-delay'', Num (javascriptDelay opts)];
                perPage = shared
                  @ (if truthy (contentHtml (header config))
                     then [Str ''--header-html'',
                           Str (getQTCompatibleFileUrl P (dest (contentHtml (header config)))),
                           Str ''--header-spacing'', spacing (header config)]
                     else [])
                  @ (if truthy (contentHtml (footer config))
                     then [Str ''--footer-html'',
                           Str (getQTCompatibleFileUrl P (dest (contentHtml (footer config)))),
                           Str ''--footer-spacing'', spacing (footer config)]
                     else [])
            in Inr ([Str ''-T'', margin_top (margin config), Str ''-B'', margin_bottom (margin config),
                     Str ''-L'', margin_left (margin config), Str ''-R'', margin_right (margin config)]
                    @ (if truthy (title config) then [Str ''--title'', Str (the (title config))]
                       else [])
                    @ (if truthy (cover config)
                       then [Str ''cover'',
                             Str (path_relative P (ebookDirectory opts) (dest (cover config))),
                             Str ''--exclude-from-outline''] @ shared
                       else [])
                    @ [Str ''toc''] @ shared
                    @ (if truthy (tocXsl config)
                       then [Str ''--xsl-style-sheet'',
                             Str (path_relative P (ebookDirectory opts) (dest (tocXsl config)))]
                       else [])
                    @ concat (map (\<lambda>d. Str (path_normalize P (url d)) # perPage) docList)
                    @ [Str (path_relative P (ebookDirectory opts) (outputFile opts))])))"
  proof (cases "truthy (tocXsl config)
         \<and> path_join P (root config) (the (tocXsl config)) \<notin> set (assetSources P config)")
    case True
    then have "map_of ?m (path_join P (root config) (the (tocXsl config))) = None"
      using resolved_lookup [of P opts config "path_join P (root config) (the (tocXsl config))"]
      by blast
    with True have "tocArgs P opts config ?m = Inl TypeError"
      by (intro tocArgs_missing) simp_all
    with True show ?thesis
      by (simp add: doCommand_def coverArgs_eq [OF c])
  next
    case False
    have t: "truthy (tocXsl config) \<Longrightarrow>
      map_of ?m (path_join P (root config) (the (tocXsl config))) = Some (?dest (tocXsl config))"
    proof -
      assume "truthy (tocXsl config)"
      with False have "path_join P (root config) (the (tocXsl config)) \<in> set (assetSources P config)"
        by blast
      then have "map_of ?m (path_join P (root config) (the (tocXsl config))) \<noteq> None"
        by (simp only: resolved_lookup)
      then show ?thesis by auto
    qed
    from False show ?thesis
      by (simp only: doCommand_resolved [OF c t h f] if_False Let_def)
  qed
  have two: "\<forall>a \<in> {cover config, contentHtml (header config), contentHtml (footer config)}.
         truthy a \<longrightarrow> (path_join P (root config) (the a), ?dest a) \<in> set ?m"
  proof (intro ballI impI)
    fix a
    assume "a \<in> {cover config, contentHtml (header config), contentHtml (footer config)}"
      and "truthy a"
    from found [OF this(2) this(1)] show "(path_join P (root config) (the a), ?dest a) \<in> set ?m"
      by (rule map_of_SomeD)
  qed
  have toc: "(path_join P (root config) (the (tocXsl config)), ?dest (tocXsl config)) \<in> set ?m"
    if "truthy (tocXsl config)
        \<and> path_join P (root config) (the (tocXsl config)) \<in> set (assetSources P config)"
  proof -
    from that have "map_of ?m (path_join P (root config) (the (tocXsl config))) \<noteq> None"
      by (simp only: resolved_lookup)
    then have "map_of ?m (path_join P (root config) (the (tocXsl config)))
                 = Some (?dest (tocXsl config))" by auto
    then show ?thesis by (rule map_of_SomeD)
  qed
  have three: "doCommand P opts config assetMap docList =
        Inr ([Str ''-T'', margin_top (margin config), Str ''-B'', margin_bottom (margin config),
              Str ''-L'', margin_left (margin config), Str ''-R'', margin_right (margin config)]
             @ (if truthy (title config) then [Str ''--title'', Str (the (title config))] else [])
             @ [Str ''toc'', Str ''--zoom'', Flt (zoom opts), Str ''--debug-javascript'',
                Str ''--javascript-delay'', Num (javascriptDelay opts)]
             @ concat (map (\<lambda>d. [Str (path_normalize P (url d)), Str ''--zoom'', Flt (zoom opts),
                                  Str ''--debug-javascript'', Str ''--javascript-delay'',
                                  Num (javascriptDelay opts)]) docList)
             @ [Str (path_relative P (ebookDirectory opts) (outputFile opts))])"
    if a: "\<not> truthy (cover config)" "\<not> truthy (tocXsl config)"
      "\<not> truthy (contentHtml (header config))" "\<not> truthy (contentHtml (footer config))"
    using doCommand_resolved [of config assetMap P "[]" "[]" "[]" "[]" opts docList] a
    by (simp add: Let_def)
  from one two toc three doCommand_Inl [of P opts config assetMap docList e]
  show ?thesis by blast
qed


text \<open>
  The theorem on a configuration with a cover and a footer template, and neither a TOC
  style sheet nor a header template, for two pages.
\<close>

theorem unconfigured_assets_omitted_witness:
  "truthy (cover cover_footer_config) \<and> \<not> truthy (tocXsl cover_footer_config)
   \<and> \<not> truthy (contentHtml (header cover_footer_config))
   \<and> truthy (contentHtml (footer cover_footer_config))
   \<and> resolveAssets (posix_at ''/home/me/book'') example_defaults
         (assetSources (posix_at ''/home/me/book'') cover_footer_config)
       = [(''/book/cover.jpg'', ''_ebook/cover.jpg''),
          (''/book/footer.html'', ''_ebook/footer.html'')]
   \<and> doCommand (posix_at ''/home/me/book'') example_defaults cover_footer_config
         (resolveAssets (posix_at ''/home/me/book'') example_defaults
            (assetSources (posix_at ''/home/me/book'') cover_footer_config)) two_docs
       = Inr [Str ''-T'', Flt ''1'', Str ''-B'', Flt ''1'', Str ''-L'', Flt ''1'', Str ''-R'', Flt ''1'',
              Str ''cover'', Str ''cover.jpg'', Str ''--exclude-from-outline'',
              Str ''--zoom'', Flt ''1.2'', Str ''--debug-javascript'',
              Str ''--javascript-delay'', Num (Finite 1000),
              Str ''toc'', Str ''--zoom'', Flt ''1.2'', Str ''--debug-javascript'',
              Str ''--javascript-delay'', Num (Finite 1000),
              Str ''ch1.html'', Str ''--zoom'', Flt ''1.2'', Str ''--debug-javascript'',
              Str ''--javascript-delay'', Num (Finite 1000),
              Str ''--footer-html'', Str ''file:///home/me/book/_ebook/footer.html'',
              Str ''--footer-spacing'', Flt ''5'',
              Str ''ch2.html'', Str ''--zoom'', Flt ''1.2'', Str ''--debug-javascript'',
              Str ''--javascript-delay'', Num (Finite 1000),
              Str ''--footer-html'', Str ''file:///home/me/book/_ebook/footer.html'',
              Str ''--footer-spacing'', Flt ''5'',
              Str ''../book_wk.pdf'']"
proof -
  have c: "truthy (cover cover_footer_config)" by code_simp
  have t: "\<not> truthy (tocXsl cover_footer_config)" by code_simp
  have h: "\<not> truthy (contentHtml (header cover_footer_config))" by code_simp
  have f: "truthy (contentHtml (footer cover_footer_config))" by code_simp
  have ti: "\<not> truthy (title cover_footer_config)" by code_simp
  have r: "resolveAssets (posix_at ''/home/me/book'') example_defaults
         (assetSources (posix_at ''/home/me/book'') cover_footer_config)
       = [(''/book/cover.jpg'', ''_ebook/cover.jpg''),
          (''/book/footer.html'', ''_ebook/footer.html'')]" by code_simp
  have jc: "path_join (posix_at ''/home/me/book'') (root cover_footer_config)
              (the (cover cover_footer_config)) = ''/book/cover.jpg''" by code_simp
  have jf: "path_join (posix_at ''/home/me/book'') (root cover_footer_config)
              (the (contentHtml (footer cover_footer_config))) = ''/book/footer.html''"
    by code_simp
  have rc: "path_relative (posix_at ''/home/me/book'') (ebookDirectory example_defaults)
              ''_ebook/cover.jpg'' = ''cover.jpg''" by code_simp
  have ro: "path_relative (posix_at ''/home/me/book'') (ebookDirectory example_defaults)
              (outputFile example_defaults) = ''../book_wk.pdf''" by code_simp
  have q: "getQTCompatibleFileUrl (posix_at ''/home/me/book'') ''_ebook/footer.html''
             = ''file:///home/me/book/_ebook/footer.html''" by code_simp
  have n: "path_normalize (posix_at ''/home/me/book'') = (\<lambda>p. p)"
    by (simp add: posix_at_def posix_def)
  have m: "margin cover_footer_config = \<lparr>margin_top = Flt ''1'', margin_bottom = Flt ''1'',
                margin_left = Flt ''1'', margin_right = Flt ''1''\<rparr>"
    by (simp add: cover_footer_config_def plain_config_def)
  have sp: "spacing (footer cover_footer_config) = Flt ''5''"
    by (simp add: cover_footer_config_def plain_config_def)
  have z: "zoom example_defaults = ''1.2''" "javascriptDelay example_defaults = Finite 1000"
    by (simp_all add: example_defaults_def)
  from unconfigured_assets_omitted [where P = "posix_at ''/home/me/book''"
         and opts = example_defaults and config = cover_footer_config and docList = two_docs
         and assetMap = "[]" and e = TypeError, THEN conjunct1]
  have "doCommand (posix_at ''/home/me/book'') example_defaults cover_footer_config
         (resolveAssets (posix_at ''/home/me/book'') example_defaults
            (assetSources (posix_at ''/home/me/book'') cover_footer_config)) two_docs
       = Inr [Str ''-T'', Flt ''1'', Str ''-B'', Flt ''1'', Str ''-L'', Flt ''1'', Str ''-R'', Flt ''1'',
              Str ''cover'', Str ''cover.jpg'', Str ''--exclude-from-outline'',
              Str ''--zoom'', Flt ''1.2'', Str ''--debug-javascript'',
              Str ''--javascript-delay'', Num (Finite 1000),
              Str ''toc'', Str ''--zoom'', Flt ''1.2'', Str ''--debug-javascript'',
              Str ''--javascript-delay'', Num (Finite 1000),
              Str ''ch1.html'', Str ''--zoom'', Flt ''1.2'', Str ''--debug-javascript'',
              Str ''--javascript-delay'', Num (Finite 1000),
              Str ''--footer-html'', Str ''file:///home/me/book/_ebook/footer.html'',
              Str ''--footer-spacing'', Flt ''5'',
              Str ''ch2.html'', Str ''--zoom'', Flt ''1.2'', Str ''--debug-javascript'',
              Str ''--javascript-delay'', Num (Finite 1000),
              Str ''--footer-html'', Str ''file:///home/me/book/_ebook/footer.html'',
              Str ''--footer-spacing'', Flt ''5'',
              Str ''../book_wk.pdf'']"
    by (simp add: c t h f ti r jc jf rc ro q n m sp z two_docs_def Let_def)
  with c t h f r show ?thesis by simp
qed

subsection \<open>A TOC style sheet outside the asset list\<close>

text \<open>
  Claim C1 at a configuration whose TOC style sheet \<open>toc.xsl\<close> is configured and not
  repeated in \<open>assets\<close>. The cover and the header and footer templates are collected into
  the asset set by \<open>processAssets\<close> (lines 138-140); the style sheet is not, so the asset
  map has no destination for it, the lookup of line 82 returns \<open>undefined\<close>,
  \<open>path.relative\<close> throws, and no argument sequence is produced: the run ends in the
  top-level handler.
\<close>

theorem unlisted_toc_stylesheet_throws:
  "truthy (tocXsl unlisted_toc_config)
   \<and> assetSources posix unlisted_toc_config = []
   \<and> resolveAssets posix example_defaults (assetSources posix unlisted_toc_config) = []
   \<and> doCommand posix example_defaults unlisted_toc_config
        (resolveAssets posix example_defaults (assetSources posix unlisted_toc_config)) two_docs
      = Inl TypeError
   \<and> outcome (main posix ok_world example_defaults None (Fulfilled (raw_of unlisted_toc_config)))
      = Logged TypeError"
  by code_simp


subsection \<open>Errors at the top level\<close>





lemma processSummary_thrown:
  "snd (processSummary P W opts) = Some e \<longleftrightarrow>
     readStream W (path_join P (ebookDirectory opts) ''SUMMARY.html'') = Inl e"
  by (auto simp: processSummary_def split: sum.splits option.splits)


















subsection \<open>A failing asset transform\<close>

text \<open>Whatever the transforms do, the promise of \<open>processAssets\<close> is never rejected.\<close>

lemma processAssets_not_Rejected: "processAssets P W opts config \<noteq> Rejected e"
  by (simp add: processAssets_def Let_def split: promise.splits)

text \<open>
  Claim C4 at an asset whose copy fails: the transform is rejected, the promise of
  \<open>processAssets\<close> is neither rejected nor fulfilled, and the top-level chain never settles,
  so its error handler does not see the failure; the rejection is left unhandled.
\<close>

theorem asset_failure_never_reported:
  "transform posix failing_world example_defaults (''/book/a/x.png'', ''_ebook/x.png'')
     = Inl (Failure ''ENOENT'')
   \<and> processAssets posix failing_world example_defaults
        (mkConfig (raw_of (plain_config [''a/x.png'']))) = Pending
   \<and> outcome (main posix failing_world example_defaults None
                 (Fulfilled (raw_of (plain_config [''a/x.png''])))) = Unsettled
   \<and> unhandled (main posix failing_world example_defaults None
                 (Fulfilled (raw_of (plain_config [''a/x.png''])))) = Some (Failure ''ENOENT'')"
  by code_simp

end
